theory Spec2Isabelle
  imports Complex_Main "HOL-Library.Signed_Division"
begin

section \<open>Common conventions of the kernels\<close>

text \<open>
  The kernels receive raw pointers and integer extents. A pointer is modelled as the
  memory seen from it: a function from the (C \<open>int\<close>) offset to the scalar stored there.
  A store \<open>p[i] = v\<close> is the function update \<open>p(i := v)\<close>. C's \<open>/\<close> and \<open>%\<close> truncate
  towards zero: they are \<open>sdiv\<close> and \<open>smod\<close>. The extents of the tensors are assumed
  to fit the 32-bit \<open>int\<close> of the source (the framework's \<open>dim32\<close> enforces it), so
  index arithmetic is done in \<open>int\<close> without wrap-around.
\<close>

type_synonym 'a ptr = "int \<Rightarrow> 'a"

text \<open>The contents of a tensor, a contiguous array, seen from its \<open>data()\<close> pointer.\<close>

definition data :: "'a list \<Rightarrow> 'a ptr" where
  "data xs i = xs ! nat i"

text \<open>
  Modelled from the spec: the macro \<open>HIP_1D_KERNEL_LOOP(i, n)\<close> is not part of the
  sources at hand. It is the grid-stride loop of the launch convention (section 5 of the
  specification): taken over all threads of the launch, the body runs exactly once for
  every \<open>i\<close> with \<open>0 \<le> i < n\<close>. The model runs the bodies one after the other in
  increasing order of \<open>i\<close>, threading the device memory \<open>s\<close> that the body writes.
\<close>

definition HIP_1D_KERNEL_LOOP :: "int \<Rightarrow> (int \<Rightarrow> 's \<Rightarrow> 's) \<Rightarrow> 's \<Rightarrow> 's" where
  "HIP_1D_KERNEL_LOOP n body s = fold body [0..n - 1] s"

section \<open>Distance operators: the L1 distance gradient\<close>

definition kEps :: real where
  "kEps = 1 / 10 ^ 12"

text \<open>
  \<open>L1DistanceGradientKernel\<close> of \<open>distance_op_hip.cc\<close>, with the arithmetic of \<open>float\<close>
  read over the reals. The two output buffers are the state of the loop.
\<close>

definition L1DistanceGradientKernel ::
  "int \<Rightarrow> int \<Rightarrow> real ptr \<Rightarrow> real ptr \<Rightarrow> real ptr \<Rightarrow> real ptr \<times> real ptr \<Rightarrow> real ptr \<times> real ptr" where
  "L1DistanceGradientKernel N D X Y dDistance =
     HIP_1D_KERNEL_LOOP (N * D) (\<lambda>i (dX, dY).
       let k = i sdiv D in
       if X i - Y i < - kEps then (dX(i := - dDistance k), dY(i := dDistance k))
       else if X i - Y i > kEps then (dX(i := dDistance k), dY(i := - dDistance k))
       else (dX(i := 0), dY(i := 0)))"

section \<open>One-hot encoding\<close>

text \<open>
  Modelled from the spec: \<open>math::Set(n, v, p)\<close> belongs to the framework's math library,
  which is not part of the sources at hand. It is the initialisation of section 4.5
  (``initialized to zero''): it stores \<open>v\<close> at the offsets \<open>0 \<le> i < n\<close> of \<open>p\<close>.
\<close>

definition math_Set :: "int \<Rightarrow> 'a \<Rightarrow> 'a ptr \<Rightarrow> 'a ptr" where
  "math_Set n v p = (\<lambda>i. if 0 \<le> i \<and> i < n then v else p i)"

text \<open>\<open>OneHotOpKernel\<close> of \<open>one_hot_ops_hip.cc\<close>; \<open>TIndex\<close> is a 64-bit integer.\<close>

definition OneHotOpKernel :: "int \<Rightarrow> int \<Rightarrow> int ptr \<Rightarrow> real ptr \<Rightarrow> real ptr" where
  "OneHotOpKernel batch_size index_size indices =
     HIP_1D_KERNEL_LOOP batch_size (\<lambda>i output. output(i * index_size + indices i := 1))"

text \<open>
  \<open>OneHotOp<HIPContext>::DoOneHotOp\<close>. The output tensor is given by its element count
  \<open>output->size()\<close> and its memory; the caller has resized it.
\<close>

definition DoOneHotOp :: "int \<Rightarrow> int \<Rightarrow> int ptr \<Rightarrow> int \<Rightarrow> real ptr \<Rightarrow> real ptr" where
  "DoOneHotOp batch_size index_size indices output_size output =
     OneHotOpKernel batch_size index_size indices (math_Set output_size 0 output)"

section \<open>Tensors, operator configuration and errors\<close>

text \<open>
  Modelled from the spec: the tensor class of the framework is not part of the sources at
  hand. Section 3 of the specification gives its content: a dense array of scalars with an
  explicit shape (an ordered sequence of non-negative integer dimensions) and a type tag
  (section 6: pointer, shape and type tag). \<open>ndim\<close>, \<open>dim32\<close>, \<open>size\<close> and
  \<open>size_from_dim\<close> are its accessors as the operators use them.
\<close>

datatype TypeMeta = TFloat | TFloat16 | TDouble | TInt32 | TInt64 | TBool

record 'a Tensor =
  dims :: "int list"
  meta :: TypeMeta
  mem :: "'a ptr"

definition ndim :: "'a Tensor \<Rightarrow> int" where
  "ndim X = int (length (dims X))"

definition dim32 :: "'a Tensor \<Rightarrow> int \<Rightarrow> int" where
  "dim32 X i = dims X ! nat i"

definition size_tensor :: "'a Tensor \<Rightarrow> int" where
  "size_tensor X = prod_list (dims X)"

definition size_from_dim :: "'a Tensor \<Rightarrow> int \<Rightarrow> int" where
  "size_from_dim X k = prod_list (drop (nat k) (dims X))"

text \<open>
  \<open>CAFFE_ENFORCE\<close> and \<open>CAFFE_THROW\<close> raise the framework's exception with a message;
  an integer division by zero is undefined behaviour in C++ (a trap on the host) and is a
  failure of its own.
\<close>

datatype error = EnforceNotMet string | DivisionByZero

text \<open>
  The configuration that \<open>ConvPoolOpBase\<close> holds for an operator instance, read by the
  accessors \<open>kernel_h()\<close>, \<open>stride_h()\<close>, \<open>pad_t()\<close> and so on.
\<close>

record ConvPoolOpBase =
  op_kernel_h :: int
  op_kernel_w :: int
  op_stride_h :: int
  op_stride_w :: int
  op_pad_t :: int
  op_pad_l :: int
  op_pad_b :: int
  op_pad_r :: int

text \<open>
  Modelled from the spec: \<open>ConvPoolOpBase::SetOutputSize\<close> is not part of the sources at
  hand. Section 3 of the specification: output spatial size =
  floor((input + pad_total - kernel) / stride) + 1; batch and channel extents are kept.
\<close>

definition SetOutputSize :: "ConvPoolOpBase \<Rightarrow> 'a Tensor \<Rightarrow> int \<Rightarrow> int list" where
  "SetOutputSize conf X output_channel =
     [dim32 X 0, output_channel,
      (dim32 X 2 + op_pad_t conf + op_pad_b conf - op_kernel_h conf) div op_stride_h conf + 1,
      (dim32 X 3 + op_pad_l conf + op_pad_r conf - op_kernel_w conf) div op_stride_w conf + 1]"

section \<open>Max pooling with an explicit argmax index\<close>

text \<open>
  The kernels are templates over the element type \<open>Dtype\<close> of the tensors (float or
  float16) and compute in \<open>float\<close>. The element type is the type \<open>'a\<close> here and
  \<open>float\<close> the type \<open>'f\<close>, which only needs to be ordered (a NaN, which no order relates
  to anything, is outside the model). The conversions \<open>convert::To<Dtype, float>\<close> and
  \<open>convert::To<float, Dtype>\<close> come from a header that is not part of the sources at
  hand: they are the parameters \<open>to_float\<close> and \<open>of_float\<close>. For \<open>Dtype = float\<close>
  both are the identity.

  The two nested loops of \<open>MaxPoolForward\<close> over the clamped window, started from
  \<open>(maxval, maxidx)\<close>.
\<close>

definition window_scan ::
  "('a \<Rightarrow> 'f::linorder) \<Rightarrow> 'a ptr \<Rightarrow> int \<Rightarrow> int \<Rightarrow> int \<Rightarrow> int \<Rightarrow> int \<Rightarrow> 'f \<times> int \<Rightarrow> 'f \<times> int" where
  "window_scan to_float bottom_slice width hstart hend wstart wend =
     fold (\<lambda>h. fold (\<lambda>w (maxval, maxidx).
         if to_float (bottom_slice (h * width + w)) > maxval
         then (to_float (bottom_slice (h * width + w)), h * width + w)
         else (maxval, maxidx)) [wstart..wend - 1]) [hstart..hend - 1]"

text \<open>
  The body of \<open>MaxPoolForward\<close> for one output index: the pair \<open>(maxval, maxidx)\<close> that
  the loops leave, \<open>maxval\<close> being a \<open>float\<close>. \<open>FLT_MAX\<close> is the constant of
  \<open><cfloat>\<close>, a parameter here. The index arithmetic is that of the unbounded integers:
  it is the kernel's where every intermediate result lies in the range of the 32-bit
  \<open>int\<close> (see \<open>MaxPoolForward_in_int\<close> below), which the results on the stored
  values require.
\<close>

definition MaxPoolForward_thread ::
  "('a \<Rightarrow> 'f::{linorder,uminus}) \<Rightarrow> 'f \<Rightarrow> 'a ptr \<Rightarrow> int \<Rightarrow> int \<Rightarrow> int \<Rightarrow> int \<Rightarrow> int \<Rightarrow> int
     \<Rightarrow> int \<Rightarrow> int \<Rightarrow> int \<Rightarrow> int \<Rightarrow> int \<Rightarrow> int \<Rightarrow> 'f \<times> int" where
  "MaxPoolForward_thread to_float FLT_MAX bottom_data channels height width pooled_height
      pooled_width kernel_h kernel_w stride_h stride_w pad_h pad_w index =
     (let pw = index smod pooled_width;
          ph = (index sdiv pooled_width) smod pooled_height;
          c = (index sdiv pooled_width sdiv pooled_height) smod channels;
          n = index sdiv pooled_width sdiv pooled_height sdiv channels;
          hstart = ph * stride_h - pad_h;
          wstart = pw * stride_w - pad_w;
          hend = min (hstart + kernel_h) height;
          wend = min (wstart + kernel_w) width;
          hstart = max hstart 0;
          wstart = max wstart 0;
          bottom_slice = (\<lambda>i. bottom_data ((n * channels + c) * height * width + i))
      in window_scan to_float bottom_slice width hstart hend wstart wend (- FLT_MAX, - 1))"

text \<open>
  The kernel: each thread stores \<open>maxval\<close>, converted to the element type, and
  \<open>maxidx\<close>.
\<close>

definition MaxPoolForward ::
  "('a \<Rightarrow> 'f::{linorder,uminus}) \<Rightarrow> ('f \<Rightarrow> 'a) \<Rightarrow> 'f \<Rightarrow> int \<Rightarrow> 'a ptr \<Rightarrow> int \<Rightarrow> int \<Rightarrow> int
     \<Rightarrow> int \<Rightarrow> int \<Rightarrow> int \<Rightarrow> int \<Rightarrow> int \<Rightarrow> int \<Rightarrow> int \<Rightarrow> int \<Rightarrow> int
     \<Rightarrow> 'a ptr \<times> int ptr \<Rightarrow> 'a ptr \<times> int ptr" where
  "MaxPoolForward to_float of_float FLT_MAX nthreads bottom_data num channels height width
      pooled_height pooled_width kernel_h kernel_w stride_h stride_w pad_h pad_w =
     HIP_1D_KERNEL_LOOP nthreads (\<lambda>index (top_data, mask').
       let (maxval, maxidx) =
             MaxPoolForward_thread to_float FLT_MAX bottom_data channels height width
               pooled_height pooled_width kernel_h kernel_w stride_h stride_w pad_h pad_w index
       in (top_data(index := of_float maxval), mask'(index := maxidx)))"

text \<open>
  The range of the 32-bit \<open>int\<close>, and the condition that the arguments of the kernel
  and every intermediate result of the index arithmetic of the thread of the output cell
  \<open>(n, c, ph, pw)\<close> lie in it: then the arithmetic of the kernel is the arithmetic of the
  model. (The flat indices \<open>h * width + w\<close> of the cells of the clamped window are below
  \<open>height * width\<close>.)
\<close>

definition INT_MAX :: int where
  "INT_MAX = 2147483647"

definition in_int :: "int \<Rightarrow> bool" where
  "in_int x \<longleftrightarrow> - INT_MAX - 1 \<le> x \<and> x \<le> INT_MAX"

definition MaxPoolForward_in_int ::
  "int \<Rightarrow> int \<Rightarrow> int \<Rightarrow> int \<Rightarrow> int \<Rightarrow> int \<Rightarrow> int \<Rightarrow> int \<Rightarrow> int \<Rightarrow> int \<Rightarrow> int \<Rightarrow> int \<Rightarrow> int
     \<Rightarrow> int \<Rightarrow> int \<Rightarrow> int \<Rightarrow> int \<Rightarrow> int \<Rightarrow> bool" where
  "MaxPoolForward_in_int nthreads num channels height width pooled_height pooled_width
      kernel_h kernel_w stride_h stride_w pad_h pad_w index n c ph pw \<longleftrightarrow>
     list_all in_int
       [nthreads, num, channels, height, width, pooled_height, pooled_width,
        kernel_h, kernel_w, stride_h, stride_w, pad_h, pad_w, index,
        ph * stride_h, ph * stride_h - pad_h, ph * stride_h - pad_h + kernel_h,
        pw * stride_w, pw * stride_w - pad_w, pw * stride_w - pad_w + kernel_w,
        n * channels, n * channels + c, (n * channels + c) * height,
        (n * channels + c) * height * width, height * width]"

text \<open>
  The body of \<open>MaxPoolBackward\<close> for one input index: the gradient it stores. The
  additions are made in the order of the two loops, starting from 0. (Here the element
  type is read as \<open>float\<close>, with the conversions around the sum exact.)
\<close>

definition MaxPoolBackward_thread ::
  "('a::{plus,zero}) ptr \<Rightarrow> int ptr \<Rightarrow> int \<Rightarrow> int \<Rightarrow> int \<Rightarrow> int \<Rightarrow> int \<Rightarrow> int \<Rightarrow> int \<Rightarrow> int \<Rightarrow> int
     \<Rightarrow> int \<Rightarrow> int \<Rightarrow> int \<Rightarrow> 'a" where
  "MaxPoolBackward_thread top_diff mask' channels height width pooled_height pooled_width
      kernel_h kernel_w stride_h stride_w pad_h pad_w index =
     (let w = index smod width;
          h = (index sdiv width) smod height;
          c = (index sdiv width sdiv height) smod channels;
          n = index sdiv width sdiv height sdiv channels;
          phstart = (if h + pad_h < kernel_h then 0
                     else (h + pad_h - kernel_h) sdiv stride_h + 1);
          phend = min ((h + pad_h) sdiv stride_h + 1) pooled_height;
          pwstart = (if w + pad_w < kernel_w then 0
                     else (w + pad_w - kernel_w) sdiv stride_w + 1);
          pwend = min ((w + pad_w) sdiv stride_w + 1) pooled_width;
          offset = (n * channels + c) * pooled_height * pooled_width;
          top_diff_slice = (\<lambda>i. top_diff (offset + i));
          mask_slice = (\<lambda>i. mask' (offset + i))
      in fold (\<lambda>ph. fold (\<lambda>pw gradient.
           if mask_slice (ph * pooled_width + pw) = h * width + w
           then gradient + top_diff_slice (ph * pooled_width + pw)
           else gradient) [pwstart..pwend - 1]) [phstart..phend - 1] 0)"

definition MaxPoolBackward ::
  "int \<Rightarrow> ('a::{plus,zero}) ptr \<Rightarrow> int ptr \<Rightarrow> int \<Rightarrow> int \<Rightarrow> int \<Rightarrow> int \<Rightarrow> int \<Rightarrow> int \<Rightarrow> int \<Rightarrow> int
     \<Rightarrow> int \<Rightarrow> int \<Rightarrow> int \<Rightarrow> int \<Rightarrow> 'a ptr \<Rightarrow> 'a ptr" where
  "MaxPoolBackward nthreads top_diff mask' num channels height width pooled_height
      pooled_width kernel_h kernel_w stride_h stride_w pad_h pad_w =
     HIP_1D_KERNEL_LOOP nthreads (\<lambda>index bottom_diff.
       bottom_diff(index :=
         MaxPoolBackward_thread top_diff mask' channels height width pooled_height
           pooled_width kernel_h kernel_w stride_h stride_w pad_h pad_w index))"

text \<open>
  The operators. \<open>Y\<close>, \<open>mask\<close> and \<open>dX\<close> are the output blobs as the operator finds
  them; a raised error leaves them as they were and returns nothing. \<open>conv_float\<close> and
  \<open>conv_half\<close> are the two conversions of the instances \<open>DoRunWithType<float>\<close> and
  \<open>DoRunWithType<float16>\<close>. The checks that the
  tensor accessors make on the further inputs \<open>dY\<close> and \<open>mask\<close> of the gradient
  operator belong to the tensor class and are not modelled.
\<close>

definition MaxPoolWithIndexOp_DoRunWithType ::
  "('a \<Rightarrow> 'f::{linorder,uminus}) \<times> ('f \<Rightarrow> 'a) \<Rightarrow> 'f \<Rightarrow> ConvPoolOpBase \<Rightarrow> 'a Tensor
     \<Rightarrow> 'a Tensor \<times> int Tensor \<Rightarrow> error + 'a Tensor \<times> int Tensor" where
  "MaxPoolWithIndexOp_DoRunWithType conv FLT_MAX conf X = (\<lambda>(Y, mask').
     let Ydims = SetOutputSize conf X (dim32 X 1);
         output_size = prod_list Ydims;
         (Ymem, maskmem) =
           MaxPoolForward (fst conv) (snd conv) FLT_MAX output_size (mem X) (dim32 X 0)
             (dim32 X 1) (dim32 X 2)
             (dim32 X 3) (Ydims ! 2) (Ydims ! 3) (op_kernel_h conf) (op_kernel_w conf)
             (op_stride_h conf) (op_stride_w conf) (op_pad_t conf) (op_pad_l conf)
             (mem Y, mem mask')
     in Inr (\<lparr>dims = Ydims, meta = meta X, mem = Ymem\<rparr>,
             \<lparr>dims = [output_size], meta = TInt32, mem = maskmem\<rparr>))"

definition MaxPoolWithIndexOp_RunOnDevice ::
  "('a \<Rightarrow> 'f::{linorder,uminus}) \<times> ('f \<Rightarrow> 'a) \<Rightarrow> ('a \<Rightarrow> 'f) \<times> ('f \<Rightarrow> 'a) \<Rightarrow> 'f
     \<Rightarrow> ConvPoolOpBase \<Rightarrow> 'a Tensor \<Rightarrow> 'a Tensor \<times> int Tensor
     \<Rightarrow> error + 'a Tensor \<times> int Tensor" where
  "MaxPoolWithIndexOp_RunOnDevice conv_float conv_half FLT_MAX conf X outputs =
     (if ndim X \<noteq> 4 then Inl (EnforceNotMet ''Operator only supports 4D tensors'')
      else if meta X = TFloat
        then MaxPoolWithIndexOp_DoRunWithType conv_float FLT_MAX conf X outputs
      else if meta X = TFloat16
        then MaxPoolWithIndexOp_DoRunWithType conv_half FLT_MAX conf X outputs
      else Inl (EnforceNotMet ''Unsupported input type''))"

definition MaxPoolWithIndexGradientOp_DoRunWithType ::
  "ConvPoolOpBase \<Rightarrow> ('a::{plus,zero}) Tensor \<Rightarrow> 'a Tensor \<Rightarrow> int Tensor \<Rightarrow> 'a Tensor
     \<Rightarrow> error + 'a Tensor" where
  "MaxPoolWithIndexGradientOp_DoRunWithType conf X dY mask' dX =
     (if ndim X \<noteq> 4 then Inl (EnforceNotMet ''Operator only supports 4D tensors'')
      else Inr \<lparr>dims = dims X, meta = meta X,
                mem = MaxPoolBackward (size_tensor X) (mem dY) (mem mask') (dim32 X 0)
                  (dim32 X 1) (dim32 X 2) (dim32 X 3) (dim32 dY 2) (dim32 dY 3)
                  (op_kernel_h conf) (op_kernel_w conf) (op_stride_h conf) (op_stride_w conf)
                  (op_pad_t conf) (op_pad_l conf) (mem dX)\<rparr>)"

definition MaxPoolWithIndexGradientOp_RunOnDevice ::
  "ConvPoolOpBase \<Rightarrow> ('a::{plus,zero}) Tensor \<Rightarrow> 'a Tensor \<Rightarrow> int Tensor \<Rightarrow> 'a Tensor
     \<Rightarrow> error + 'a Tensor" where
  "MaxPoolWithIndexGradientOp_RunOnDevice conf X dY mask' dX =
     (if meta X = TFloat then MaxPoolWithIndexGradientOp_DoRunWithType conf X dY mask' dX
      else if meta X = TFloat16 then MaxPoolWithIndexGradientOp_DoRunWithType conf X dY mask' dX
      else Inl (EnforceNotMet ''Unsupported input type''))"

section \<open>Distance operators: forward passes\<close>

text \<open>
  The reduction kernels. One thread block handles row \<open>i\<close>; its threads stride over the
  \<open>D\<close> columns and \<open>BlockReduce\<close> adds their partial sums. Over the reals the order of
  the additions does not matter, and the row sum is accumulated from column 0 upwards.
  With \<open>N = 0\<close> the launch has no block and the loop over the rows is empty.
\<close>

definition SquaredL2DistanceKernel ::
  "int \<Rightarrow> int \<Rightarrow> real ptr \<Rightarrow> real ptr \<Rightarrow> real ptr \<Rightarrow> real ptr" where
  "SquaredL2DistanceKernel N D X Y =
     HIP_1D_KERNEL_LOOP N (\<lambda>i distance.
       let total_dist = fold (\<lambda>j dist.
             let diff = X (i * D + j) - Y (i * D + j) in dist + diff * diff) [0..D - 1] 0
       in distance(i := total_dist / 2))"

definition L1DistanceKernel ::
  "int \<Rightarrow> int \<Rightarrow> real ptr \<Rightarrow> real ptr \<Rightarrow> real ptr \<Rightarrow> real ptr" where
  "L1DistanceKernel N D X Y =
     HIP_1D_KERNEL_LOOP N (\<lambda>i distance.
       let aggregate = fold (\<lambda>j sum. sum + \<bar>X (i * D + j) - Y (i * D + j)\<bar>) [0..D - 1] 0
       in distance(i := aggregate))"

definition DotProductKernel ::
  "int \<Rightarrow> int \<Rightarrow> real ptr \<Rightarrow> real ptr \<Rightarrow> real ptr \<Rightarrow> real ptr" where
  "DotProductKernel N D X Y =
     HIP_1D_KERNEL_LOOP N (\<lambda>i result.
       let offset = i * D;
           sum = fold (\<lambda>j partialSum. partialSum + X (offset + j) * Y (offset + j)) [0..D - 1] 0
       in result(i := sum))"

text \<open>
  Modelled from the spec: \<open>math::Maximum\<close>, \<open>math::Mul\<close> and \<open>math::InvSqrt\<close> belong to
  the framework's math library, which is not part of the sources at hand. They are the
  elementwise steps of section 4.3 (the clamp by epsilon, the product of the two clamped
  values, and the division by the square root that forms the denominator), each over the
  offsets \<open>0 \<le> i < N\<close>.
\<close>

definition math_Maximum :: "int \<Rightarrow> real \<Rightarrow> real ptr \<Rightarrow> real ptr \<Rightarrow> real ptr" where
  "math_Maximum N alpha x y = (\<lambda>i. if 0 \<le> i \<and> i < N then max (x i) alpha else y i)"

definition math_Mul :: "int \<Rightarrow> real ptr \<Rightarrow> real ptr \<Rightarrow> real ptr \<Rightarrow> real ptr" where
  "math_Mul N a b y = (\<lambda>i. if 0 \<le> i \<and> i < N then a i * b i else y i)"

definition math_InvSqrt :: "int \<Rightarrow> real ptr \<Rightarrow> real ptr \<Rightarrow> real ptr" where
  "math_InvSqrt N x y = (\<lambda>i. if 0 \<le> i \<and> i < N then 1 / sqrt (x i) else y i)"

text \<open>
  Pointer arithmetic: \<open>p + k\<close> sees at offset \<open>i\<close> what \<open>p\<close> sees at \<open>k + i\<close>. A kernel
  that writes through \<open>p + k\<close> leaves a memory \<open>q\<close> as seen from \<open>p + k\<close>; seen from
  \<open>p\<close> again it is \<open>ptr_add q (- k)\<close>.
\<close>

definition ptr_add :: "'a ptr \<Rightarrow> int \<Rightarrow> 'a ptr" where
  "ptr_add p k = (\<lambda>i. p (k + i))"

text \<open>The checks on the two inputs that open every forward operator.\<close>

definition enforce_same_dims :: "'a Tensor \<Rightarrow> 'a Tensor \<Rightarrow> error + unit" where
  "enforce_same_dims X Y =
     (if ndim X \<noteq> ndim Y then Inl (EnforceNotMet ''X.ndim() == Y.ndim()'')
      else if \<exists>i \<in> set [0..ndim X - 1]. dim32 X i \<noteq> dim32 Y i
      then Inl (EnforceNotMet ''X.dim32(i) == Y.dim32(i)'')
      else Inr ())"

text \<open>
  \<open>SquaredL2DistanceOp<float, HIPContext>::RunOnDevice\<close>: \<open>D = X.size() / N\<close> is
  computed without a guard on \<open>N\<close>.
\<close>

definition SquaredL2DistanceOp_RunOnDevice ::
  "real Tensor \<Rightarrow> real Tensor \<Rightarrow> real Tensor \<Rightarrow> error + real Tensor" where
  "SquaredL2DistanceOp_RunOnDevice X Y distance =
     (case enforce_same_dims X Y of Inl e \<Rightarrow> Inl e | Inr _ \<Rightarrow>
        let N = (if ndim X > 0 then dim32 X 0 else 1) in
        if N = 0 then Inl DivisionByZero
        else let D = size_tensor X sdiv N in
          Inr \<lparr>dims = [N], meta = TFloat,
               mem = SquaredL2DistanceKernel N D (mem X) (mem Y) (mem distance)\<rparr>)"

text \<open>\<open>L1DistanceOp<float, HIPContext>::RunOnDevice\<close>: \<open>D\<close> is guarded by \<open>N > 0\<close>.\<close>

definition L1DistanceOp_RunOnDevice ::
  "real Tensor \<Rightarrow> real Tensor \<Rightarrow> real Tensor \<Rightarrow> error + real Tensor" where
  "L1DistanceOp_RunOnDevice X Y distance =
     (case enforce_same_dims X Y of Inl e \<Rightarrow> Inl e | Inr _ \<Rightarrow>
        let N = (if ndim X > 0 then dim32 X 0 else 1);
            D = (if N > 0 then size_tensor X sdiv N else 0) in
          Inr \<lparr>dims = [N], meta = TFloat,
               mem = L1DistanceKernel N D (mem X) (mem Y) (mem distance)\<rparr>)"

text \<open>
  \<open>DotProductOp<float, HIPContext>::RunOnDevice\<close>: \<open>N\<close> and \<open>D\<close> are computed only for a
  tensor with elements.
\<close>

definition DotProductOp_RunOnDevice ::
  "real Tensor \<Rightarrow> real Tensor \<Rightarrow> real Tensor \<Rightarrow> error + real Tensor" where
  "DotProductOp_RunOnDevice X Y result =
     (case enforce_same_dims X Y of Inl e \<Rightarrow> Inl e | Inr _ \<Rightarrow>
        if size_tensor X > 0
        then let N = (if ndim X > 0 then dim32 X 0 else 1) in
          if N = 0 then Inl DivisionByZero
          else let D = size_tensor X sdiv N in
            Inr \<lparr>dims = [N], meta = TFloat,
                 mem = DotProductKernel N D (mem X) (mem Y) (mem result)\<rparr>
        else let N = 0; D = 0 in
            Inr \<lparr>dims = [N], meta = TFloat,
                 mem = DotProductKernel N D (mem X) (mem Y) (mem result)\<rparr>)"

text \<open>
  \<open>CosineSimilarityOp<float, HIPContext>::RunOnDevice\<close>. \<open>aux\<close> is the scratch buffer
  \<open>aux_\<close> of the operator instance, resized to \<open>2 * N\<close>: \<open>x2 = aux\<close>, \<open>y2 = aux + N\<close>
  and \<open>scale = x2\<close>. The result is the output tensor together with the scratch memory.
\<close>

definition CosineSimilarityOp_RunOnDevice ::
  "real Tensor \<Rightarrow> real Tensor \<Rightarrow> real Tensor \<Rightarrow> real ptr \<Rightarrow> error + real Tensor \<times> real ptr" where
  "CosineSimilarityOp_RunOnDevice X Y result aux =
     (case enforce_same_dims X Y of Inl e \<Rightarrow> Inl e | Inr _ \<Rightarrow>
        let N = (if ndim X > 0 then dim32 X 0 else 1);
            D = size_from_dim X 1;
            aux = DotProductKernel N D (mem X) (mem X) aux;
            aux = ptr_add (DotProductKernel N D (mem Y) (mem Y) (ptr_add aux N)) (- N);
            result_data = DotProductKernel N D (mem X) (mem Y) (mem result);
            aux = math_Maximum N kEps aux aux;
            aux = ptr_add (math_Maximum N kEps (ptr_add aux N) (ptr_add aux N)) (- N);
            aux = math_Mul N aux (ptr_add aux N) aux;
            aux = math_InvSqrt N aux aux;
            result_data = math_Mul N result_data aux result_data
        in Inr (\<lparr>dims = [N], meta = TFloat, mem = result_data\<rparr>, aux))"

text \<open>
  The formula of the specification for one row, \<open>x\<close> and \<open>y\<close> being the row of each
  input: the dot product divided by the product of the two norms, each clamped by
  \<open>eps = 1e-12\<close>.
\<close>

definition cosine_spec :: "real list \<Rightarrow> real list \<Rightarrow> real" where
  "cosine_spec x y =
     (\<Sum>(a, b) \<leftarrow> zip x y. a * b) /
       (max (sqrt (\<Sum>a \<leftarrow> x. a * a)) (1 / 10 ^ 12) * max (sqrt (\<Sum>b \<leftarrow> y. b * b)) (1 / 10 ^ 12))"

section \<open>Padding\<close>

text \<open>
  The source offset that a forward kernel computes from a padded output index: the input
  cell whose value the padded cell receives. \<open>None\<close> is the constant mode's
  out-of-bounds case, which takes the fill value.
\<close>

definition PadConstNCHW_source :: "int \<Rightarrow> int \<Rightarrow> int \<Rightarrow> int \<Rightarrow> int \<Rightarrow> int \<Rightarrow> int \<Rightarrow> int option" where
  "PadConstNCHW_source height width padded_height padded_width pad_t pad_l index =
     (let nc = index sdiv padded_width;
          pw = index smod padded_width;
          ph = nc smod padded_height;
          nc = nc sdiv padded_height;
          h = ph - pad_t;
          w = pw - pad_l
      in if h < 0 \<or> w < 0 \<or> h \<ge> height \<or> w \<ge> width then None
         else Some ((nc * height + h) * width + w))"


definition PadEdgeNCHW_source :: "int \<Rightarrow> int \<Rightarrow> int \<Rightarrow> int \<Rightarrow> int \<Rightarrow> int \<Rightarrow> int \<Rightarrow> int" where
  "PadEdgeNCHW_source height width padded_height padded_width pad_t pad_l index =
     (let nc = index sdiv padded_width;
          pw = index smod padded_width;
          ph = nc smod padded_height;
          nc = nc sdiv padded_height;
          h = min (height - 1) (max (ph - pad_t) 0);
          w = min (width - 1) (max (pw - pad_l) 0)
      in (nc * height + h) * width + w)"


definition PadConstNHWC_source ::
  "int \<Rightarrow> int \<Rightarrow> int \<Rightarrow> int \<Rightarrow> int \<Rightarrow> int \<Rightarrow> int \<Rightarrow> int \<Rightarrow> int option" where
  "PadConstNHWC_source height width channels padded_height padded_width pad_t pad_l index =
     (let n = index sdiv channels;
          c = index smod channels;
          pw = n smod padded_width;
          n = n sdiv padded_width;
          ph = n smod padded_height;
          n = n sdiv padded_height;
          h = ph - pad_t;
          w = pw - pad_l
      in if h < 0 \<or> w < 0 \<or> h \<ge> height \<or> w \<ge> width then None
         else Some (((n * height + h) * width + w) * channels + c))"

definition PadEdgeNHWC_source ::
  "int \<Rightarrow> int \<Rightarrow> int \<Rightarrow> int \<Rightarrow> int \<Rightarrow> int \<Rightarrow> int \<Rightarrow> int \<Rightarrow> int" where
  "PadEdgeNHWC_source height width channels padded_height padded_width pad_t pad_l index =
     (let n = index sdiv channels;
          c = index smod channels;
          pw = n smod padded_width;
          n = n sdiv padded_width;
          ph = n smod padded_height;
          n = n sdiv padded_height;
          h = min (height - 1) (max (ph - pad_t) 0);
          w = min (width - 1) (max (pw - pad_l) 0)
      in ((n * height + h) * width + w) * channels + c)"

definition PadImageConstNCHW ::
  "int \<Rightarrow> 'a ptr \<Rightarrow> int \<Rightarrow> int \<Rightarrow> int \<Rightarrow> int \<Rightarrow> int \<Rightarrow> int \<Rightarrow> int \<Rightarrow> int \<Rightarrow> 'a \<Rightarrow> 'a ptr \<Rightarrow> 'a ptr" where
  "PadImageConstNCHW nthreads bottom_data num channels height width padded_height padded_width
      pad_t pad_l value =
     HIP_1D_KERNEL_LOOP nthreads (\<lambda>index top_data.
       top_data(index :=
         (case PadConstNCHW_source height width padded_height padded_width pad_t pad_l index of
            None \<Rightarrow> value | Some i \<Rightarrow> bottom_data i)))"


definition PadImageEdgeNCHW ::
  "int \<Rightarrow> 'a ptr \<Rightarrow> int \<Rightarrow> int \<Rightarrow> int \<Rightarrow> int \<Rightarrow> int \<Rightarrow> int \<Rightarrow> int \<Rightarrow> int \<Rightarrow> 'a ptr \<Rightarrow> 'a ptr" where
  "PadImageEdgeNCHW nthreads bottom_data num channels height width padded_height padded_width
      pad_t pad_l =
     HIP_1D_KERNEL_LOOP nthreads (\<lambda>index top_data.
       top_data(index :=
         bottom_data (PadEdgeNCHW_source height width padded_height padded_width pad_t pad_l index)))"


definition PadImageConstNHWC ::
  "int \<Rightarrow> 'a ptr \<Rightarrow> int \<Rightarrow> int \<Rightarrow> int \<Rightarrow> int \<Rightarrow> int \<Rightarrow> int \<Rightarrow> int \<Rightarrow> int \<Rightarrow> 'a \<Rightarrow> 'a ptr \<Rightarrow> 'a ptr" where
  "PadImageConstNHWC nthreads bottom_data num height width channels padded_height padded_width
      pad_t pad_l value =
     HIP_1D_KERNEL_LOOP nthreads (\<lambda>index top_data.
       top_data(index :=
         (case PadConstNHWC_source height width channels padded_height padded_width pad_t pad_l
                 index of
            None \<Rightarrow> value | Some i \<Rightarrow> bottom_data i)))"

definition PadImageEdgeNHWC ::
  "int \<Rightarrow> 'a ptr \<Rightarrow> int \<Rightarrow> int \<Rightarrow> int \<Rightarrow> int \<Rightarrow> int \<Rightarrow> int \<Rightarrow> int \<Rightarrow> int \<Rightarrow> 'a ptr \<Rightarrow> 'a ptr" where
  "PadImageEdgeNHWC nthreads bottom_data num height width channels padded_height padded_width
      pad_t pad_l =
     HIP_1D_KERNEL_LOOP nthreads (\<lambda>index top_data.
       top_data(index :=
         bottom_data (PadEdgeNHWC_source height width channels padded_height padded_width
           pad_t pad_l index)))"

















section \<open>Notions used to state the pooling results\<close>

text \<open>
  One step of the scan of \<open>MaxPoolForward\<close> at the flat index \<open>k\<close>, the flat indices
  of a window in the order the two loops visit them, and what a scan of the indices
  \<open>ks\<close> started from \<open>(m, i)\<close> has found when it ends with \<open>(m', i')\<close>: nothing above
  \<open>m\<close>, or the first index that holds the greatest value.
\<close>

definition scan_step :: "('a::linorder) ptr \<Rightarrow> int \<Rightarrow> 'a \<times> int \<Rightarrow> 'a \<times> int" where
  "scan_step bs k = (\<lambda>(maxval, maxidx). if bs k > maxval then (bs k, k) else (maxval, maxidx))"

definition window_cells :: "int \<Rightarrow> int \<Rightarrow> int \<Rightarrow> int \<Rightarrow> int \<Rightarrow> int list" where
  "window_cells width hstart hend wstart wend =
     concat (map (\<lambda>h. map (\<lambda>w. h * width + w) [wstart..wend - 1]) [hstart..hend - 1])"

definition scanned :: "(int \<Rightarrow> 'a::linorder) \<Rightarrow> int list \<Rightarrow> 'a \<Rightarrow> int \<Rightarrow> 'a \<Rightarrow> int \<Rightarrow> bool" where
  "scanned bs ks m i m' i' \<longleftrightarrow>
     (if \<forall>k \<in> set ks. bs k \<le> m then m' = m \<and> i' = i
      else \<exists>ys zs. ks = ys @ i' # zs \<and> bs i' = m' \<and> m < m' \<and>
             (\<forall>k \<in> set ys. bs k < m') \<and> (\<forall>k \<in> set zs. bs k \<le> m'))"

text \<open>The value of \<open>FLT_MAX\<close> for the 32-bit \<open>float\<close>: \<open>2^128 - 2^104\<close>.\<close>

definition FLT_MAX_value :: real where
  "FLT_MAX_value = 340282346638528859811704183484516925440"

text \<open>
  An instance of the conversions for a tensor of float16 elements, after IEEE 754 (the
  header that defines \<open>convert::To\<close> is not part of the sources at hand). The values of
  the two formats are the finite ones, read as reals, and the two infinities, in their
  order. The widening conversion \<open>convert::To<float16, float>\<close> is exact. The narrowing conversion
  \<open>convert::To<float, float16>\<close> rounds to the nearest float16 value: a finite float of
  magnitude 65520 or more (half-way from the greatest finite float16 value, 65504, to
  \<open>2\<^sup>1\<^sup>6\<close>) becomes an infinity. The rounding of the floats in between to the 11
  significant bits of float16 is not modelled, floats being read as reals; the overflow
  is.
\<close>

datatype ieee = NegInf | Finite real | PosInf

instantiation ieee :: linorder
begin

definition less_eq_ieee :: "ieee \<Rightarrow> ieee \<Rightarrow> bool" where
  "less_eq_ieee x y =
     (case x of
        NegInf \<Rightarrow> True
      | Finite a \<Rightarrow> (case y of NegInf \<Rightarrow> False | Finite b \<Rightarrow> a \<le> b | PosInf \<Rightarrow> True)
      | PosInf \<Rightarrow> (case y of PosInf \<Rightarrow> True | _ \<Rightarrow> False))"

definition less_ieee :: "ieee \<Rightarrow> ieee \<Rightarrow> bool" where
  "less_ieee x y = (x \<le> y \<and> \<not> y \<le> x)"

instance
  by standard (auto simp: less_eq_ieee_def less_ieee_def split: ieee.splits)

end

instantiation ieee :: uminus
begin

definition uminus_ieee :: "ieee \<Rightarrow> ieee" where
  "uminus_ieee x = (case x of NegInf \<Rightarrow> PosInf | Finite a \<Rightarrow> Finite (- a) | PosInf \<Rightarrow> NegInf)"

instance ..

end

definition To_float16_float :: "ieee \<Rightarrow> ieee" where
  "To_float16_float x = x"

definition To_float_float16 :: "ieee \<Rightarrow> ieee" where
  "To_float_float16 x =
     (case x of
        Finite a \<Rightarrow> (if a \<le> - 65520 then NegInf else if 65520 \<le> a then PosInf else Finite a)
      | _ \<Rightarrow> x)"

section \<open>Facts about the conventions\<close>

lemma sdiv_nonneg_eq: "0 \<le> a \<Longrightarrow> 0 \<le> b \<Longrightarrow> (a::int) sdiv b = a div b"
  by (cases "a = 0"; cases "b = 0") (simp_all add: signed_divide_int_def)

lemma smod_nonneg_eq: "0 \<le> a \<Longrightarrow> 0 \<le> b \<Longrightarrow> (a::int) smod b = a mod b"
  by (cases "a = 0") (simp_all add: signed_modulo_int_def)

lemma div_row_col: "0 \<le> j \<Longrightarrow> j < D \<Longrightarrow> (k * D + j) div D = (k::int)"
  by simp

lemma mod_row_col: "0 \<le> j \<Longrightarrow> j < D \<Longrightarrow> (k * D + j) mod D = (j::int)"
  by simp

lemma row_col_nonneg: "0 \<le> k \<Longrightarrow> 0 \<le> j \<Longrightarrow> 0 \<le> D \<Longrightarrow> 0 \<le> k * D + (j::int)"
  by simp

lemma row_col_less:
  assumes "0 \<le> k" "k < N" "0 \<le> j" "j < D"
  shows "k * D + j < N * (D::int)"
proof -
  have "k + 1 \<le> N" using assms by simp
  then have "(k + 1) * D \<le> N * D" using assms by (intro mult_right_mono) auto
  then show ?thesis using assms by (simp add: algebra_simps)
qed

lemma set_upto_loop: "i \<in> set [0..n - 1] \<longleftrightarrow> 0 \<le> i \<and> i < (n::int)"
  by auto

text \<open>A loop whose body stores only at its own index, in one or in two buffers.\<close>

lemma fold_own_index:
  assumes "\<And>i a. body i a = a(i := f i)"
  shows "fold body js a = (\<lambda>j. if j \<in> set js then f j else a j)"
proof (induction js arbitrary: a)
  case Nil
  show ?case by simp
next
  case (Cons x xs)
  have "fold body (x # xs) a = fold body xs (a(x := f x))"
    by (simp add: assms)
  also have "\<dots> = (\<lambda>j. if j \<in> set xs then f j else (a(x := f x)) j)"
    by (rule Cons.IH)
  finally show ?case by (auto simp: fun_eq_iff)
qed

lemma fold_own_index2:
  assumes "\<And>i a b. body i (a, b) = (a(i := f i), b(i := g i))"
  shows "fold body js (a, b) =
     (\<lambda>j. if j \<in> set js then f j else a j, \<lambda>j. if j \<in> set js then g j else b j)"
proof (induction js arbitrary: a b)
  case Nil
  show ?case by simp
next
  case (Cons x xs)
  have "fold body (x # xs) (a, b) = fold body xs (a(x := f x), b(x := g x))"
    by (simp add: assms)
  also have "\<dots> = (\<lambda>j. if j \<in> set xs then f j else (a(x := f x)) j,
                      \<lambda>j. if j \<in> set xs then g j else (b(x := g x)) j)"
    by (rule Cons.IH)
  finally show ?case by (auto simp: fun_eq_iff)
qed

section \<open>The L1 distance gradient\<close>

lemma L1DistanceGradientKernel_at:
  assumes "0 \<le> i" "i < N * D"
  shows "fst (L1DistanceGradientKernel N D X Y dDistance (dX, dY)) i =
           (if X i - Y i < - kEps then - dDistance (i sdiv D)
            else if X i - Y i > kEps then dDistance (i sdiv D) else 0)"
    and "snd (L1DistanceGradientKernel N D X Y dDistance (dX, dY)) i =
           (if X i - Y i < - kEps then dDistance (i sdiv D)
            else if X i - Y i > kEps then - dDistance (i sdiv D) else 0)"
proof -
  let ?f = "\<lambda>i. if X i - Y i < - kEps then - dDistance (i sdiv D)
            else if X i - Y i > kEps then dDistance (i sdiv D) else 0"
  let ?g = "\<lambda>i. if X i - Y i < - kEps then dDistance (i sdiv D)
            else if X i - Y i > kEps then - dDistance (i sdiv D) else 0"
  have "L1DistanceGradientKernel N D X Y dDistance (dX, dY) =
      (\<lambda>j. if j \<in> set [0..N * D - 1] then ?f j else dX j,
       \<lambda>j. if j \<in> set [0..N * D - 1] then ?g j else dY j)"
    unfolding L1DistanceGradientKernel_def HIP_1D_KERNEL_LOOP_def
    by (rule fold_own_index2) (simp add: Let_def)
  then show
    "fst (L1DistanceGradientKernel N D X Y dDistance (dX, dY)) i = ?f i"
    "snd (L1DistanceGradientKernel N D X Y dDistance (dX, dY)) i = ?g i"
    using assms by simp_all
qed

text \<open>
  Claim C8. For every element \<open>i = k * D + j\<close> of row \<open>k\<close> (\<open>0 \<le> k < N\<close>, \<open>0 \<le> j < D\<close>):
  if \<open>X[i] - Y[i] > 1e-12\<close> then \<open>dX[i] = dDistance[k]\<close> and \<open>dY[i] = - dDistance[k]\<close>;
  if \<open>X[i] - Y[i] < - 1e-12\<close> then \<open>dX[i] = - dDistance[k]\<close> and \<open>dY[i] = dDistance[k]\<close>;
  and if \<open>|X[i] - Y[i]| \<le> 1e-12\<close> then both gradients are zero.
\<close>

theorem L1DistanceGradient_sign:
  assumes "0 \<le> k" "k < N" "0 \<le> j" "j < D" "i = k * D + j"
    and "(dX', dY') = L1DistanceGradientKernel N D X Y dDistance (dX, dY)"
  shows "(X i - Y i > 1 / 10 ^ 12 \<longrightarrow> dX' i = dDistance k \<and> dY' i = - dDistance k)
       \<and> (X i - Y i < - (1 / 10 ^ 12) \<longrightarrow> dX' i = - dDistance k \<and> dY' i = dDistance k)
       \<and> (\<bar>X i - Y i\<bar> \<le> 1 / 10 ^ 12 \<longrightarrow> dX' i = 0 \<and> dY' i = 0)"
proof -
  have i0: "0 \<le> i" using assms by simp
  have iN: "i < N * D" using assms row_col_less by simp
  have k: "i sdiv D = k"
    using assms i0 by (simp add: sdiv_nonneg_eq)
  have dX': "dX' = fst (L1DistanceGradientKernel N D X Y dDistance (dX, dY))"
    and dY': "dY' = snd (L1DistanceGradientKernel N D X Y dDistance (dX, dY))"
    using assms(6) by (metis fst_conv, metis snd_conv)
  show ?thesis
    unfolding dX' dY' L1DistanceGradientKernel_at [OF i0 iN] k
    by (auto simp: kEps_def abs_le_iff)
qed

theorem L1DistanceGradient_sign_witness:
  "fst (L1DistanceGradientKernel 1 2 (data [3, 1]) (data [1, 1]) (data [5]) (data [], data [])) 0 = 5
 \<and> snd (L1DistanceGradientKernel 1 2 (data [3, 1]) (data [1, 1]) (data [5]) (data [], data [])) 0 = - 5
 \<and> fst (L1DistanceGradientKernel 1 2 (data [3, 1]) (data [1, 1]) (data [5]) (data [], data [])) 1 = 0"
proof -
  obtain dX' dY' where r:
    "(dX', dY') = L1DistanceGradientKernel 1 2 (data [3, 1]) (data [1, 1]) (data [5]) (data [], data [])"
    by (metis surj_pair)
  have d: "data [3, 1::real] 0 = 3" "data [3, 1::real] 1 = 1" "data [1, 1::real] 0 = 1"
    "data [1, 1::real] 1 = 1" "data [5::real] 0 = 5"
    by (simp_all add: data_def)
  have a: "dX' 0 = 5 \<and> dY' 0 = - 5"
    using L1DistanceGradient_sign [of 0 1 0 2 0 dX' dY' "data [3, 1]" "data [1, 1]" "data [5]" "data []" "data []"] r d
    by simp
  have b: "dX' 1 = 0"
    using L1DistanceGradient_sign [of 0 1 1 2 1 dX' dY' "data [3, 1]" "data [1, 1]" "data [5]" "data []" "data []"] r d
    by simp
  show ?thesis using a b r by (metis fst_conv snd_conv)
qed

section \<open>One-hot encoding: one 1 per row\<close>

lemma fold_scatter_const:
  "fold (\<lambda>i a. a(t i := v)) js a = (\<lambda>j. if j \<in> t ` set js then v else a j)"
proof (induction js arbitrary: a)
  case Nil
  show ?case by simp
next
  case (Cons x xs)
  have "fold (\<lambda>i a. a(t i := v)) (x # xs) a = fold (\<lambda>i a. a(t i := v)) xs (a(t x := v))"
    by simp
  also have "\<dots> = (\<lambda>j. if j \<in> t ` set xs then v else (a(t x := v)) j)"
    by (rule Cons.IH)
  finally have e: "fold (\<lambda>i a. a(t i := v)) (x # xs) a =
      (\<lambda>j. if j \<in> t ` set xs then v else (a(t x := v)) j)" .
  show ?case unfolding e by (auto simp: fun_eq_iff)
qed

lemma row_col_unique:
  assumes "i * D + j = i' * D + j'" "0 \<le> j" "j < D" "0 \<le> j'" "j' < (D::int)"
  shows "i = i' \<and> j = j'"
proof -
  have "i = (i * D + j) div D" using assms(2,3) by simp
  also have "\<dots> = (i' * D + j') div D" by (simp only: assms(1))
  also have "\<dots> = i'" using assms(4,5) by simp
  finally have "i = i'" .
  then show ?thesis using assms(1) by simp
qed

lemma DoOneHotOp_at:
  "DoOneHotOp batch_size index_size indices output_size output p =
     (if p \<in> (\<lambda>i. i * index_size + indices i) ` {0..batch_size - 1} then 1
      else if 0 \<le> p \<and> p < output_size then 0 else output p)"
  by (simp add: DoOneHotOp_def OneHotOpKernel_def HIP_1D_KERNEL_LOOP_def
      fold_scatter_const math_Set_def)

text \<open>
  Claim C9. For every index array of length \<open>batch_size\<close> whose entries all lie in
  \<open>[0, index_size)\<close>, the output, a \<open>batch_size \<times> index_size\<close> matrix, has in row \<open>i\<close>
  the value 1 at column \<open>indices[i]\<close> and the value 0 at every other column.
\<close>

theorem DoOneHotOp_one_per_row:
  assumes "\<forall>i. 0 \<le> i \<and> i < batch_size \<longrightarrow> 0 \<le> indices i \<and> indices i < index_size"
    and "output_size = batch_size * index_size"
    and "0 \<le> i" "i < batch_size" "0 \<le> j" "j < index_size"
  shows "DoOneHotOp batch_size index_size indices output_size output (i * index_size + j) =
           (if j = indices i then 1 else 0)"
proof -
  let ?t = "\<lambda>i. i * index_size + indices i"
  have range: "0 \<le> i * index_size + j \<and> i * index_size + j < output_size"
    using assms row_col_less [of i batch_size j index_size] by simp
  have "i * index_size + j \<in> ?t ` {0..batch_size - 1} \<longleftrightarrow> j = indices i"
  proof
    assume "i * index_size + j \<in> ?t ` {0..batch_size - 1}"
    then obtain i' where i': "0 \<le> i'" "i' < batch_size"
        "i * index_size + j = i' * index_size + indices i'"
      by auto
    then have "0 \<le> indices i' \<and> indices i' < index_size" using assms(1) by blast
    then have "i = i' \<and> j = indices i'"
      using row_col_unique [OF i'(3)] assms(5,6) by blast
    then show "j = indices i" by simp
  next
    assume "j = indices i"
    then show "i * index_size + j \<in> ?t ` {0..batch_size - 1}"
      using assms(3,4) by auto
  qed
  then show ?thesis using range by (simp add: DoOneHotOp_at)
qed

theorem DoOneHotOp_one_per_row_witness:
  "DoOneHotOp 2 3 (data [2, 0]) 6 (data []) (0 * 3 + 2) = 1
 \<and> DoOneHotOp 2 3 (data [2, 0]) 6 (data []) (1 * 3 + 2) = 0"
proof -
  have idx: "\<forall>i. 0 \<le> i \<and> i < 2 \<longrightarrow> 0 \<le> data [2, 0::int] i \<and> data [2, 0::int] i < 3"
  proof (intro allI impI)
    fix i :: int
    assume "0 \<le> i \<and> i < 2"
    then have "i = 0 \<or> i = 1" by auto
    then show "0 \<le> data [2, 0::int] i \<and> data [2, 0::int] i < 3"
      by (auto simp: data_def)
  qed
  have d: "data [2, 0::int] 0 = 2" "data [2, 0::int] 1 = 0"
    by (simp_all add: data_def)
  have a: "DoOneHotOp 2 3 (data [2, 0]) 6 (data []) (0 * 3 + 2) = 1"
    using DoOneHotOp_one_per_row [OF idx, of 6 0 2 "data []"] d by simp
  have b: "DoOneHotOp 2 3 (data [2, 0]) 6 (data []) (1 * 3 + 2) = 0"
    using DoOneHotOp_one_per_row [OF idx, of 6 1 2 "data []"] d by simp
  show ?thesis using a b by simp
qed

section \<open>Max pooling: rejected inputs\<close>

lemma MaxPoolWithIndexOp_DoRunWithType_Inr:
  "\<exists>r. MaxPoolWithIndexOp_DoRunWithType conv FLT_MAX conf X outputs = Inr r"
  by (cases outputs) (simp add: MaxPoolWithIndexOp_DoRunWithType_def Let_def split: prod.splits)

text \<open>
  Claim C7. Both operators reject an input of rank other than 4 with the rank error
  (``Operator only supports 4D tensors'') and an input of an element type other than
  float and float16 with the type error (``Unsupported input type''); a rejected
  invocation returns the error and no output. An invocation raises one error: for an
  input that is wrong in both respects it is the rank error in the forward operator,
  which checks the rank first, and the type error in the gradient operator, which checks
  the type first. An input of rank 4 and of type float or float16 is accepted by both.
\<close>

theorem MaxPoolWithIndex_rejects:
  "(ndim X \<noteq> 4 \<and> (meta X = TFloat \<or> meta X = TFloat16) \<longrightarrow>
      MaxPoolWithIndexOp_RunOnDevice conv_float conv_half FLT_MAX conf X outputs =
        Inl (EnforceNotMet ''Operator only supports 4D tensors''))
 \<and> (ndim X' \<noteq> 4 \<and> (meta X' = TFloat \<or> meta X' = TFloat16) \<longrightarrow>
      MaxPoolWithIndexGradientOp_RunOnDevice conf X' dY mask' dX =
        Inl (EnforceNotMet ''Operator only supports 4D tensors''))
 \<and> (ndim X = 4 \<and> meta X \<noteq> TFloat \<and> meta X \<noteq> TFloat16 \<longrightarrow>
      MaxPoolWithIndexOp_RunOnDevice conv_float conv_half FLT_MAX conf X outputs =
        Inl (EnforceNotMet ''Unsupported input type''))
 \<and> (ndim X' = 4 \<and> meta X' \<noteq> TFloat \<and> meta X' \<noteq> TFloat16 \<longrightarrow>
      MaxPoolWithIndexGradientOp_RunOnDevice conf X' dY mask' dX =
        Inl (EnforceNotMet ''Unsupported input type''))
 \<and> (ndim X \<noteq> 4 \<and> meta X \<noteq> TFloat \<and> meta X \<noteq> TFloat16 \<longrightarrow>
      MaxPoolWithIndexOp_RunOnDevice conv_float conv_half FLT_MAX conf X outputs =
        Inl (EnforceNotMet ''Operator only supports 4D tensors''))
 \<and> (ndim X' \<noteq> 4 \<and> meta X' \<noteq> TFloat \<and> meta X' \<noteq> TFloat16 \<longrightarrow>
      MaxPoolWithIndexGradientOp_RunOnDevice conf X' dY mask' dX =
        Inl (EnforceNotMet ''Unsupported input type''))
 \<and> (ndim X = 4 \<and> (meta X = TFloat \<or> meta X = TFloat16) \<longrightarrow>
      (\<exists>r. MaxPoolWithIndexOp_RunOnDevice conv_float conv_half FLT_MAX conf X outputs = Inr r))
 \<and> (ndim X' = 4 \<and> (meta X' = TFloat \<or> meta X' = TFloat16) \<longrightarrow>
      (\<exists>r. MaxPoolWithIndexGradientOp_RunOnDevice conf X' dY mask' dX = Inr r))"
  using MaxPoolWithIndexOp_DoRunWithType_Inr [of conv_float FLT_MAX conf X outputs]
    MaxPoolWithIndexOp_DoRunWithType_Inr [of conv_half FLT_MAX conf X outputs]
  by (auto simp: MaxPoolWithIndexOp_RunOnDevice_def MaxPoolWithIndexGradientOp_RunOnDevice_def
      MaxPoolWithIndexGradientOp_DoRunWithType_def)

theorem MaxPoolWithIndex_rejects_witness:
  "MaxPoolWithIndexOp_RunOnDevice (\<lambda>x. x, \<lambda>x. x) (\<lambda>x. x, \<lambda>x. x) FLT_MAX_value
     \<lparr>op_kernel_h = 2, op_kernel_w = 2, op_stride_h = 2, op_stride_w = 2,
      op_pad_t = 0, op_pad_l = 0, op_pad_b = 0, op_pad_r = 0\<rparr>
     \<lparr>dims = [4, 4], meta = TFloat, mem = data [1, 2, 3, 4 :: real]\<rparr>
     (\<lparr>dims = [], meta = TFloat, mem = data []\<rparr>, \<lparr>dims = [], meta = TInt32, mem = data []\<rparr>)
   = Inl (EnforceNotMet ''Operator only supports 4D tensors'')
 \<and> MaxPoolWithIndexGradientOp_RunOnDevice
     \<lparr>op_kernel_h = 2, op_kernel_w = 2, op_stride_h = 2, op_stride_w = 2,
      op_pad_t = 0, op_pad_l = 0, op_pad_b = 0, op_pad_r = 0\<rparr>
     \<lparr>dims = [1, 1, 2, 2], meta = TInt32, mem = data [1, 2, 3, 4::int]\<rparr>
     \<lparr>dims = [1, 1, 1, 1], meta = TInt32, mem = data [1]\<rparr>
     \<lparr>dims = [1], meta = TInt32, mem = data [3]\<rparr>
     \<lparr>dims = [], meta = TInt32, mem = data []\<rparr>
   = Inl (EnforceNotMet ''Unsupported input type'')"
  using MaxPoolWithIndex_rejects [where
      X = "\<lparr>dims = [4, 4], meta = TFloat, mem = data [1, 2, 3, 4 :: real]\<rparr>"
      and conv_float = "(\<lambda>x. x, \<lambda>x. x)" and conv_half = "(\<lambda>x. x, \<lambda>x. x)"
      and FLT_MAX = FLT_MAX_value
      and conf = "\<lparr>op_kernel_h = 2, op_kernel_w = 2, op_stride_h = 2, op_stride_w = 2,
        op_pad_t = 0, op_pad_l = 0, op_pad_b = 0, op_pad_r = 0\<rparr>"
      and outputs = "(\<lparr>dims = [], meta = TFloat, mem = data []\<rparr>,
        \<lparr>dims = [], meta = TInt32, mem = data []\<rparr>)"
      and X' = "\<lparr>dims = [1, 1, 2, 2], meta = TInt32, mem = data [1, 2, 3, 4::int]\<rparr>"
      and dY = "\<lparr>dims = [1, 1, 1, 1], meta = TInt32, mem = data [1]\<rparr>"
      and mask' = "\<lparr>dims = [1], meta = TInt32, mem = data [3]\<rparr>"
      and dX = "\<lparr>dims = [], meta = TInt32, mem = data []\<rparr>"]
  by (simp add: ndim_def)

section \<open>Distance operators: the empty batch\<close>

lemma enforce_same_dims_refl: "enforce_same_dims X X = Inr ()"
  by (simp add: enforce_same_dims_def)

lemma HIP_1D_KERNEL_LOOP_empty: "n \<le> 0 \<Longrightarrow> HIP_1D_KERNEL_LOOP n body s = s"
  by (simp add: HIP_1D_KERNEL_LOOP_def)

lemma math_empty:
  "N \<le> 0 \<Longrightarrow> math_Maximum N alpha x y = y"
  "N \<le> 0 \<Longrightarrow> math_Mul N a b y = y"
  "N \<le> 0 \<Longrightarrow> math_InvSqrt N x y = y"
  by (auto simp: math_Maximum_def math_Mul_def math_InvSqrt_def fun_eq_iff)

lemma ptr_add_back: "ptr_add (ptr_add p k) (- k) = p"
  by (simp add: ptr_add_def)

lemma ptr_add_0: "ptr_add p 0 = p"
  by (simp add: ptr_add_def)

text \<open>
  Claim C4 at the empty batch of shape \<open>0 \<times> 3\<close>. The L1 distance, the dot product and
  the cosine similarity return an output of shape \<open>[0]\<close>; the squared L2 distance divides
  \<open>X.size() = 0\<close> by \<open>N = 0\<close>.
\<close>

theorem SquaredL2Distance_empty_batch_divides_by_zero:
  "SquaredL2DistanceOp_RunOnDevice
     \<lparr>dims = [0, 3], meta = TFloat, mem = data []\<rparr>
     \<lparr>dims = [0, 3], meta = TFloat, mem = data []\<rparr>
     \<lparr>dims = [], meta = TFloat, mem = data []\<rparr> = Inl DivisionByZero
 \<and> L1DistanceOp_RunOnDevice
     \<lparr>dims = [0, 3], meta = TFloat, mem = data []\<rparr>
     \<lparr>dims = [0, 3], meta = TFloat, mem = data []\<rparr>
     \<lparr>dims = [], meta = TFloat, mem = data []\<rparr>
   = Inr \<lparr>dims = [0], meta = TFloat, mem = data []\<rparr>
 \<and> DotProductOp_RunOnDevice
     \<lparr>dims = [0, 3], meta = TFloat, mem = data []\<rparr>
     \<lparr>dims = [0, 3], meta = TFloat, mem = data []\<rparr>
     \<lparr>dims = [], meta = TFloat, mem = data []\<rparr>
   = Inr \<lparr>dims = [0], meta = TFloat, mem = data []\<rparr>
 \<and> CosineSimilarityOp_RunOnDevice
     \<lparr>dims = [0, 3], meta = TFloat, mem = data []\<rparr>
     \<lparr>dims = [0, 3], meta = TFloat, mem = data []\<rparr>
     \<lparr>dims = [], meta = TFloat, mem = data []\<rparr> (data [])
   = Inr (\<lparr>dims = [0], meta = TFloat, mem = data []\<rparr>, data [])"
  by (simp add: SquaredL2DistanceOp_RunOnDevice_def L1DistanceOp_RunOnDevice_def
      DotProductOp_RunOnDevice_def CosineSimilarityOp_RunOnDevice_def
      enforce_same_dims_refl ndim_def dim32_def size_tensor_def size_from_dim_def
      L1DistanceKernel_def DotProductKernel_def HIP_1D_KERNEL_LOOP_empty
      math_empty ptr_add_0 Let_def)

section \<open>Cosine similarity: where the clamp applies\<close>

lemma fold_add_sum: "fold (\<lambda>j (s::real). s + f j) js s0 = s0 + sum_list (map f js)"
  by (induction js arbitrary: s0) (simp_all add: add.assoc)

lemma sum_list_upto: "sum_list (map f [a..b]) = sum f {a..b::int}"
  by (simp add: sum_set_upto_conv_sum_list_int [symmetric])

lemma DotProductKernel_eq:
  "DotProductKernel N D X Y r =
     (\<lambda>i. if 0 \<le> i \<and> i < N then (\<Sum>j = 0..D - 1. X (i * D + j) * Y (i * D + j)) else r i)"
proof -
  have "DotProductKernel N D X Y r =
      (\<lambda>i. if i \<in> set [0..N - 1] then (\<Sum>j = 0..D - 1. X (i * D + j) * Y (i * D + j)) else r i)"
    unfolding DotProductKernel_def HIP_1D_KERNEL_LOOP_def
    by (rule fold_own_index) (simp add: Let_def fold_add_sum sum_list_upto)
  then show ?thesis by (simp add: set_upto_loop)
qed

lemma DotProductKernel_at:
  "0 \<le> i \<Longrightarrow> i < N \<Longrightarrow>
     DotProductKernel N D X Y r i = (\<Sum>j = 0..D - 1. X (i * D + j) * Y (i * D + j))"
  by (simp add: DotProductKernel_eq)

lemma DotProductKernel_out: "i < 0 \<or> N \<le> i \<Longrightarrow> DotProductKernel N D X Y r i = r i"
  by (auto simp: DotProductKernel_eq)

lemma enforce_same_dims_eq: "dims X = dims Y \<Longrightarrow> enforce_same_dims X Y = Inr ()"
  by (simp add: enforce_same_dims_def ndim_def dim32_def)

lemma sqrt_1e12: "sqrt (1 / 1000000000000) = 1 / 1000000"
  by (rule real_sqrt_unique) (simp_all add: power2_eq_square)

lemma sqrt_1e14: "sqrt (1 / 100000000000000) = 1 / 10000000"
  by (rule real_sqrt_unique) (simp_all add: power2_eq_square)

text \<open>
  Claim C3, as the operator computes it. For two inputs of the same shape with batch
  extent \<open>N\<close> and row length \<open>D\<close>, the operator succeeds, the output has shape \<open>[N]\<close>, and
  for every row \<open>i\<close> it is the dot product of the two rows divided by
  \<open>sqrt (max(||X||\<^sup>2, eps) * max(||Y||\<^sup>2, eps))\<close> with \<open>eps = 1e-12\<close>: the clamp is applied to each
  squared norm before the product, and the square root is taken of the product.
\<close>

theorem CosineSimilarity_clamps_squared_norms:
  assumes "dims X = dims Y" "dims X \<noteq> []" "N = dim32 X 0" "D = size_from_dim X 1"
    and "0 \<le> i" "i < N"
  shows "\<exists>R aux'. CosineSimilarityOp_RunOnDevice X Y result aux = Inr (R, aux') \<and> dims R = [N]
     \<and> mem R i = (\<Sum>j = 0..D - 1. mem X (i * D + j) * mem Y (i * D + j)) /
         sqrt (max (\<Sum>j = 0..D - 1. mem X (i * D + j) * mem X (i * D + j)) (1 / 10 ^ 12)
             * max (\<Sum>j = 0..D - 1. mem Y (i * D + j) * mem Y (i * D + j)) (1 / 10 ^ 12))"
proof -
  have nd: "ndim X > 0" using assms(2) by (simp add: ndim_def)
  show ?thesis
    using assms(5,6) nd
    by (simp add: CosineSimilarityOp_RunOnDevice_def enforce_same_dims_eq [OF assms(1)] Let_def
      assms(3) [symmetric] assms(4) [symmetric] math_Maximum_def math_Mul_def math_InvSqrt_def
      ptr_add_def DotProductKernel_at DotProductKernel_out kEps_def)
qed

theorem CosineSimilarity_clamps_squared_norms_witness:
  "\<exists>R aux'. CosineSimilarityOp_RunOnDevice
       \<lparr>dims = [1, 2], meta = TFloat, mem = data [3, 4]\<rparr>
       \<lparr>dims = [1, 2], meta = TFloat, mem = data [3, 4]\<rparr>
       \<lparr>dims = [], meta = TFloat, mem = data []\<rparr> (data []) = Inr (R, aux') \<and> dims R = [1]
     \<and> mem R 0 = (\<Sum>j = 0..2 - 1. data [3, 4] (0 * 2 + j) * data [3, 4] (0 * 2 + j)) /
         sqrt (max (\<Sum>j = 0..2 - 1. data [3, 4] (0 * 2 + j) * data [3, 4] (0 * 2 + j)) (1 / 10 ^ 12)
             * max (\<Sum>j = 0..2 - 1. data [3, 4] (0 * 2 + j) * data [3, 4] (0 * 2 + j)) (1 / 10 ^ 12))"
  using CosineSimilarity_clamps_squared_norms [of
      "\<lparr>dims = [1, 2], meta = TFloat, mem = data [3, 4]\<rparr>"
      "\<lparr>dims = [1, 2], meta = TFloat, mem = data [3, 4]\<rparr>" 1 2 0
      "\<lparr>dims = [], meta = TFloat, mem = data []\<rparr>" "data []"]
  by (simp add: dim32_def size_from_dim_def)

text \<open>
  The claim as stated fails for a row whose norm is below \<open>1e-6\<close>: for the rows
  \<open>X = [1e-7]\<close> and \<open>Y = [1]\<close> the operator returns \<open>0.1\<close>, where the formula of the claim,
  which clamps the norms themselves, gives \<open>1\<close>.
\<close>

theorem CosineSimilarity_norm_clamp_counterexample:
  "mem (fst (projr (CosineSimilarityOp_RunOnDevice
     \<lparr>dims = [1, 1], meta = TFloat, mem = data [1 / 10 ^ 7]\<rparr>
     \<lparr>dims = [1, 1], meta = TFloat, mem = data [1]\<rparr>
     \<lparr>dims = [], meta = TFloat, mem = data []\<rparr> (data [])))) 0 = 1 / 10
  \<and> cosine_spec [1 / 10 ^ 7] [1] = 1"
  by (simp add: cosine_spec_def CosineSimilarityOp_RunOnDevice_def enforce_same_dims_eq Let_def
      ndim_def dim32_def size_from_dim_def math_Maximum_def math_Mul_def math_InvSqrt_def
      ptr_add_def DotProductKernel_at DotProductKernel_out kEps_def data_def sqrt_1e12 sqrt_1e14)

section \<open>Padding forward in reflect mode\<close>

lemma sdiv_smod_row_col:
  assumes "0 \<le> k" "0 \<le> j" "j < D"
  shows "(k * D + j) sdiv D = (k::int)" "(k * D + j) smod D = j"
proof -
  have D: "0 \<le> D" using assms by linarith
  then have "0 \<le> k * D" using assms by simp
  then have "0 \<le> k * D + j" using assms by simp
  with D show "(k * D + j) sdiv D = k" "(k * D + j) smod D = j"
    using assms by (simp_all add: sdiv_nonneg_eq smod_nonneg_eq)
qed

lemma index3_less:
  assumes "0 \<le> a" "a < A" "0 \<le> b" "b < B" "0 \<le> c" "c < (C::int)"
  shows "0 \<le> (a * B + b) * C + c" "(a * B + b) * C + c < A * B * C"
proof -
  have 1: "0 \<le> a * B + b" "a * B + b < A * B"
    using assms row_col_less [of a A b B] by simp_all
  show "0 \<le> (a * B + b) * C + c" using 1 assms by simp
  show "(a * B + b) * C + c < A * B * C"
    using row_col_less [of "a * B + b" "A * B" c C] 1 assms by simp
qed

lemma index4:
  assumes "0 \<le> n" "0 \<le> c" "c < C" "0 \<le> ph" "ph < PH" "0 \<le> pw" "pw < (PW::int)"
    and "index = ((n * C + c) * PH + ph) * PW + pw"
  shows "index smod PW = pw" "(index sdiv PW) smod PH = ph"
    "(index sdiv PW sdiv PH) smod C = c" "index sdiv PW sdiv PH sdiv C = n"
proof -
  have "0 \<le> C" "0 \<le> PH" using assms(2,3,4,5) by linarith+
  then have 0: "0 \<le> n * C + c" and 1: "0 \<le> (n * C + c) * PH + ph"
    using assms(1,2,4) by simp_all
  have a: "index sdiv PW = (n * C + c) * PH + ph" "index smod PW = pw"
    unfolding assms(8) using sdiv_smod_row_col [OF 1 assms(6,7)] by simp_all
  have b: "((n * C + c) * PH + ph) sdiv PH = n * C + c" "((n * C + c) * PH + ph) smod PH = ph"
    using sdiv_smod_row_col [OF 0 assms(4,5)] by simp_all
  have c: "(n * C + c) sdiv C = n" "(n * C + c) smod C = c"
    using sdiv_smod_row_col [OF assms(1,2,3)] by simp_all
  show "index smod PW = pw" by (rule a(2))
  show "(index sdiv PW) smod PH = ph" unfolding a(1) by (rule b(2))
  show "(index sdiv PW sdiv PH) smod C = c" unfolding a(1) b(1) by (rule c(2))
  show "index sdiv PW sdiv PH sdiv C = n" unfolding a(1) b(1) by (rule c(1))
qed

lemma index4_range:
  assumes "0 \<le> n" "n < N" "0 \<le> c" "c < C" "0 \<le> ph" "ph < PH" "0 \<le> pw" "pw < (PW::int)"
  shows "0 \<le> ((n * C + c) * PH + ph) * PW + pw"
    and "((n * C + c) * PH + ph) * PW + pw < N * C * PH * PW"
proof -
  have nc: "0 \<le> n * C + c" "n * C + c < N * C"
    using assms(1,2,3,4) row_col_less [of n N c C] by simp_all
  show "0 \<le> ((n * C + c) * PH + ph) * PW + pw"
    and "((n * C + c) * PH + ph) * PW + pw < N * C * PH * PW"
    using index3_less [OF nc assms(5,6,7,8)] by simp_all
qed




lemma HIP_loop_own_index:
  assumes "\<And>i a. body i a = a(i := f i)"
  shows "HIP_1D_KERNEL_LOOP n body a = (\<lambda>j. if 0 \<le> j \<and> j < n then f j else a j)"
  unfolding HIP_1D_KERNEL_LOOP_def fold_own_index [of body f, OF assms] set_upto_loop
  by (rule refl)




section \<open>Padding backward with an all-ones gradient\<close>
















































section \<open>Max pooling forward: the maximum and its first index\<close>

lemma fold_rows:
  "fold (\<lambda>h. fold (\<lambda>w. f (h * width + w)) ws) hs acc =
   fold f (concat (map (\<lambda>h. map (\<lambda>w. h * width + w) ws) hs)) acc"
  by (induction hs arbitrary: acc) (simp_all add: fold_map comp_def)

lemma window_scan_cells:
  "window_scan to_float bs width hstart hend wstart wend =
     fold (scan_step (\<lambda>k. to_float (bs k))) (window_cells width hstart hend wstart wend)"
proof
  fix acc
  have "window_scan to_float bs width hstart hend wstart wend acc =
      fold (\<lambda>h. fold (\<lambda>w. scan_step (\<lambda>k. to_float (bs k)) (h * width + w))
        [wstart..wend - 1]) [hstart..hend - 1] acc"
    by (simp add: window_scan_def scan_step_def)
  then show "window_scan to_float bs width hstart hend wstart wend acc =
     fold (scan_step (\<lambda>k. to_float (bs k))) (window_cells width hstart hend wstart wend) acc"
    by (simp only: fold_rows window_cells_def)
qed

lemma scanned_bound:
  assumes "scanned bs ks m i m1 i1"
  shows "m \<le> m1" and "\<forall>k \<in> set ks. bs k \<le> m1"
proof -
  have "m \<le> m1 \<and> (\<forall>k \<in> set ks. bs k \<le> m1)"
  proof (cases "\<forall>k \<in> set ks. bs k \<le> m")
    case True
    then have "m1 = m" using assms by (simp add: scanned_def)
    then show ?thesis using True by simp
  next
    case False
    then have "\<exists>ys zs. ks = ys @ i1 # zs \<and> bs i1 = m1 \<and> m < m1 \<and>
                  (\<forall>k \<in> set ys. bs k < m1) \<and> (\<forall>k \<in> set zs. bs k \<le> m1)"
      using assms by (simp add: scanned_def)
    then obtain ys zs where d: "ks = ys @ i1 # zs" "bs i1 = m1" "m < m1"
        "\<forall>k \<in> set ys. bs k < m1" "\<forall>k \<in> set zs. bs k \<le> m1"
      by blast
    have "bs k \<le> m1" if "k \<in> set ks" for k
    proof -
      from that have "k \<in> set ys \<or> k = i1 \<or> k \<in> set zs" unfolding d(1) by auto
      moreover have "bs k \<le> m1" if "k \<in> set ys"
        using d(4) that by (simp add: less_imp_le)
      moreover have "bs k \<le> m1" if "k = i1"
        using d(2) that by simp
      moreover have "bs k \<le> m1" if "k \<in> set zs"
        using d(5) that by simp
      ultimately show ?thesis by blast
    qed
    then show ?thesis using d(3) by simp
  qed
  then show "m \<le> m1" and "\<forall>k \<in> set ks. bs k \<le> m1" by simp_all
qed

lemma scanned_snoc_gt:
  assumes "scanned bs ks m i m1 i1" "m1 < bs x"
  shows "scanned bs (ks @ [x]) m i (bs x) x"
proof -
  have b: "m \<le> m1" "\<forall>k \<in> set ks. bs k \<le> m1" using scanned_bound [OF assms(1)] by simp_all
  have lt: "m < bs x" using b(1) assms(2) by (rule le_less_trans)
  have all: "\<forall>k \<in> set ks. bs k < bs x"
  proof
    fix k assume "k \<in> set ks"
    then have "bs k \<le> m1" using b(2) by simp
    then show "bs k < bs x" using assms(2) by (rule le_less_trans)
  qed
  have "\<not> (\<forall>k \<in> set (ks @ [x]). bs k \<le> m)" using lt by (simp add: not_le)
  moreover have "\<exists>ys zs. ks @ [x] = ys @ x # zs \<and> bs x = bs x \<and> m < bs x \<and>
             (\<forall>k \<in> set ys. bs k < bs x) \<and> (\<forall>k \<in> set zs. bs k \<le> bs x)"
    using lt all by (intro exI [of _ ks] exI [of _ "[]"]) simp
  ultimately show ?thesis unfolding scanned_def by (simp only: if_False)
qed

lemma scanned_snoc_le:
  assumes "scanned bs ks m i m1 i1" "\<not> m1 < bs x"
  shows "scanned bs (ks @ [x]) m i m1 i1"
proof (cases "\<forall>k \<in> set ks. bs k \<le> m")
  case True
  then have e: "m1 = m" "i1 = i" using assms(1) by (simp_all add: scanned_def)
  have "bs x \<le> m" using assms(2) e by (simp add: not_less)
  then have c: "\<forall>k \<in> set (ks @ [x]). bs k \<le> m" using True by simp
  show ?thesis unfolding scanned_def if_P [OF c] using e by simp
next
  case False
  then have "\<exists>ys zs. ks = ys @ i1 # zs \<and> bs i1 = m1 \<and> m < m1 \<and>
                (\<forall>k \<in> set ys. bs k < m1) \<and> (\<forall>k \<in> set zs. bs k \<le> m1)"
    using assms(1) by (simp add: scanned_def)
  then obtain ys zs where d: "ks = ys @ i1 # zs" "bs i1 = m1" "m < m1"
      "\<forall>k \<in> set ys. bs k < m1" "\<forall>k \<in> set zs. bs k \<le> m1"
    by blast
  have "bs x \<le> m1" using assms(2) by (simp add: not_less)
  then have "ks @ [x] = ys @ i1 # (zs @ [x]) \<and> bs i1 = m1 \<and> m < m1 \<and>
            (\<forall>k \<in> set ys. bs k < m1) \<and> (\<forall>k \<in> set (zs @ [x]). bs k \<le> m1)"
    using d by simp
  then have "\<exists>ys zs. ks @ [x] = ys @ i1 # zs \<and> bs i1 = m1 \<and> m < m1 \<and>
            (\<forall>k \<in> set ys. bs k < m1) \<and> (\<forall>k \<in> set zs. bs k \<le> m1)"
    by (intro exI [of _ ys] exI [of _ "zs @ [x]"])
  moreover have "\<not> (\<forall>k \<in> set (ks @ [x]). bs k \<le> m)" using False by simp
  ultimately show ?thesis unfolding scanned_def by (simp only: if_False)
qed

lemma scan_result:
  "scanned bs ks m i (fst (fold (scan_step bs) ks (m, i))) (snd (fold (scan_step bs) ks (m, i)))"
proof (induction ks rule: rev_induct)
  case Nil
  show ?case by (simp add: scanned_def)
next
  case (snoc x ks)
  obtain m1 i1 where r1: "fold (scan_step bs) ks (m, i) = (m1, i1)"
    by (cases "fold (scan_step bs) ks (m, i)") auto
  have IH: "scanned bs ks m i m1 i1" using snoc.IH unfolding r1 by simp
  have f: "fold (scan_step bs) (ks @ [x]) (m, i) = scan_step bs x (m1, i1)"
    by (simp add: r1)
  show ?case
  proof (cases "m1 < bs x")
    case True
    then have "fold (scan_step bs) (ks @ [x]) (m, i) = (bs x, x)"
      unfolding f by (simp add: scan_step_def)
    then show ?thesis using scanned_snoc_gt [OF IH True] by simp
  next
    case False
    then have "fold (scan_step bs) (ks @ [x]) (m, i) = (m1, i1)"
      unfolding f by (simp add: scan_step_def)
    then show ?thesis using scanned_snoc_le [OF IH False] by simp
  qed
qed

lemma set_cells:
  "k \<in> set (concat (map (\<lambda>h. map (\<lambda>w. h * width + (w::int)) wl) hl)) \<longleftrightarrow>
     (\<exists>h \<in> set hl. \<exists>w \<in> set wl. k = h * width + w)"
  by (induction hl) auto

lemma set_window_cells:
  "k \<in> set (window_cells width hstart hend wstart wend) \<longleftrightarrow>
     (\<exists>h w. hstart \<le> h \<and> h < hend \<and> wstart \<le> w \<and> w < wend \<and> k = h * width + w)"
proof -
  have "k \<in> set (window_cells width hstart hend wstart wend) \<longleftrightarrow>
      (\<exists>h \<in> set [hstart..hend - 1]. \<exists>w \<in> set [wstart..wend - 1]. k = h * width + w)"
    unfolding window_cells_def by (rule set_cells)
  also have "\<dots> \<longleftrightarrow>
      (\<exists>h w. hstart \<le> h \<and> h < hend \<and> wstart \<le> w \<and> w < wend \<and> k = h * width + w)"
    by (simp add: Bex_def)
  finally show ?thesis .
qed

lemma row_major_less:
  assumes "h' < h \<or> (h' = h \<and> w' < w)" "0 \<le> w" "0 \<le> w'" "w' < width"
  shows "h' * width + w' < h * width + (w::int)"
proof (cases "h' < h")
  case True
  then have "h' + 1 \<le> h" by simp
  moreover have "0 \<le> width" using assms(3,4) by linarith
  ultimately have "(h' + 1) * width \<le> h * width" by (rule mult_right_mono)
  then show ?thesis using assms(2,4) by (simp add: algebra_simps)
next
  case False
  then show ?thesis using assms(1) by simp
qed

lemma sorted_cells:
  assumes "sorted_wrt (<) hl" "sorted_wrt (<) wl" "\<forall>w \<in> set wl. 0 \<le> w \<and> w < width"
  shows "sorted_wrt (<) (concat (map (\<lambda>h. map (\<lambda>w. h * width + (w::int)) wl) hl))"
  using assms(1)
proof (induction hl)
  case Nil
  show ?case by simp
next
  case (Cons h hl)
  have row: "sorted_wrt (<) (map (\<lambda>w. h * width + w) wl)"
    using assms(2) by (simp add: sorted_wrt_map)
  have rest: "sorted_wrt (<) (concat (map (\<lambda>h. map (\<lambda>w. h * width + w) wl) hl))"
    using Cons by simp
  have cross: "h * width + w < h' * width + w'"
    if "w \<in> set wl" "h' \<in> set hl" "w' \<in> set wl" for w h' w'
  proof -
    have "h < h'" using Cons.prems that(2) by simp
    then have "h < h' \<or> (h = h' \<and> w < w')" by simp
    moreover have "0 \<le> w'" "0 \<le> w" "w < width" using assms(3) that by simp_all
    ultimately show ?thesis by (rule row_major_less)
  qed
  have "\<forall>x \<in> set (map (\<lambda>w. h * width + w) wl).
        \<forall>y \<in> set (concat (map (\<lambda>h. map (\<lambda>w. h * width + w) wl) hl)). x < y"
  proof (intro ballI)
    fix x y
    assume "x \<in> set (map (\<lambda>w. h * width + w) wl)"
      "y \<in> set (concat (map (\<lambda>h. map (\<lambda>w. h * width + w) wl) hl))"
    then have "\<exists>w \<in> set wl. x = h * width + w" "\<exists>h' \<in> set hl. \<exists>w' \<in> set wl. y = h' * width + w'"
      using set_cells [of y width wl hl] by auto
    then show "x < y" using cross by blast
  qed
  then show ?case using row rest by (simp add: sorted_wrt_append)
qed

lemma sorted_window_cells:
  "0 \<le> wstart \<Longrightarrow> wend \<le> width \<Longrightarrow>
     sorted_wrt (<) (window_cells width hstart hend wstart wend)"
  unfolding window_cells_def by (rule sorted_cells) auto

lemma window_scan_result:
  fixes bs :: "('a::linorder) ptr"
  assumes "0 \<le> wstart" "wend \<le> width"
    and "fold (scan_step bs) (window_cells width hstart hend wstart wend) (m, i) = (m', i')"
  shows "\<forall>h w. hstart \<le> h \<and> h < hend \<and> wstart \<le> w \<and> w < wend \<longrightarrow> bs (h * width + w) \<le> m'"
    and "(\<forall>h w. hstart \<le> h \<and> h < hend \<and> wstart \<le> w \<and> w < wend \<longrightarrow> bs (h * width + w) \<le> m)
           \<Longrightarrow> m' = m \<and> i' = i"
    and "\<exists>h w. hstart \<le> h \<and> h < hend \<and> wstart \<le> w \<and> w < wend \<and> m < bs (h * width + w) \<Longrightarrow>
         \<exists>h w. hstart \<le> h \<and> h < hend \<and> wstart \<le> w \<and> w < wend \<and> i' = h * width + w \<and>
            bs (h * width + w) = m' \<and>
            (\<forall>h' w'. hstart \<le> h' \<and> h' < hend \<and> wstart \<le> w' \<and> w' < wend \<and>
                (h' < h \<or> (h' = h \<and> w' < w)) \<longrightarrow> bs (h' * width + w') < m')"
proof -
  define ks where "ks = window_cells width hstart hend wstart wend"
  have "fold (scan_step bs) ks (m, i) = (m', i')"
    using assms(3) by (simp only: ks_def)
  then have sc: "scanned bs ks m i m' i'"
    using scan_result [of bs ks m i] by simp
  have memI: "h * width + w \<in> set ks"
    if "hstart \<le> h" "h < hend" "wstart \<le> w" "w < wend" for h w
    unfolding ks_def set_window_cells using that by blast
  have memE: "\<exists>h w. hstart \<le> h \<and> h < hend \<and> wstart \<le> w \<and> w < wend \<and> k = h * width + w"
    if "k \<in> set ks" for k
    using that unfolding ks_def set_window_cells .
  show "\<forall>h w. hstart \<le> h \<and> h < hend \<and> wstart \<le> w \<and> w < wend \<longrightarrow> bs (h * width + w) \<le> m'"
  proof (intro allI impI)
    fix h w
    assume "hstart \<le> h \<and> h < hend \<and> wstart \<le> w \<and> w < wend"
    then have "h * width + w \<in> set ks" using memI by simp
    then show "bs (h * width + w) \<le> m'" using scanned_bound(2) [OF sc] by simp
  qed
  show "m' = m \<and> i' = i"
    if a: "\<forall>h w. hstart \<le> h \<and> h < hend \<and> wstart \<le> w \<and> w < wend \<longrightarrow> bs (h * width + w) \<le> m"
  proof -
    have "\<forall>k \<in> set ks. bs k \<le> m"
    proof
      fix k assume "k \<in> set ks"
      then obtain h w where "hstart \<le> h \<and> h < hend \<and> wstart \<le> w \<and> w < wend" "k = h * width + w"
        using memE by blast
      then show "bs k \<le> m" using a by simp
    qed
    then show ?thesis using sc by (simp add: scanned_def)
  qed
  show "\<exists>h w. hstart \<le> h \<and> h < hend \<and> wstart \<le> w \<and> w < wend \<and> i' = h * width + w \<and>
            bs (h * width + w) = m' \<and>
            (\<forall>h' w'. hstart \<le> h' \<and> h' < hend \<and> wstart \<le> w' \<and> w' < wend \<and>
                (h' < h \<or> (h' = h \<and> w' < w)) \<longrightarrow> bs (h' * width + w') < m')"
    if a: "\<exists>h w. hstart \<le> h \<and> h < hend \<and> wstart \<le> w \<and> w < wend \<and> m < bs (h * width + w)"
  proof -
    obtain h0 w0 where h0: "hstart \<le> h0" "h0 < hend" "wstart \<le> w0" "w0 < wend"
        "m < bs (h0 * width + w0)"
      using a by blast
    have "h0 * width + w0 \<in> set ks" using memI h0(1,2,3,4) by simp
    moreover have "\<not> bs (h0 * width + w0) \<le> m" using h0(5) by (simp add: not_le)
    ultimately have n: "\<not> (\<forall>k \<in> set ks. bs k \<le> m)" by blast
    have "\<exists>ys zs. ks = ys @ i' # zs \<and> bs i' = m' \<and> m < m' \<and>
             (\<forall>k \<in> set ys. bs k < m') \<and> (\<forall>k \<in> set zs. bs k \<le> m')"
      using sc unfolding scanned_def if_not_P [OF n] .
    then obtain ys zs where d: "ks = ys @ i' # zs" "bs i' = m'" "\<forall>k \<in> set ys. bs k < m'"
      by blast
    have "i' \<in> set ks" unfolding d(1) by simp
    then obtain h w where hw: "hstart \<le> h" "h < hend" "wstart \<le> w" "w < wend" "i' = h * width + w"
      using memE by blast
    have "sorted_wrt (<) ks"
      unfolding ks_def using assms(1,2) by (rule sorted_window_cells)
    then have zs: "\<forall>z \<in> set zs. i' < z"
      unfolding d(1) by (simp add: sorted_wrt_append)
    have before: "bs (h' * width + w') < m'"
      if b: "hstart \<le> h' \<and> h' < hend \<and> wstart \<le> w' \<and> w' < wend \<and> (h' < h \<or> (h' = h \<and> w' < w))"
      for h' w'
    proof -
      have o: "h' < h \<or> (h' = h \<and> w' < w)" using b by simp
      have w0: "0 \<le> w" using assms(1) hw(3) by simp
      have w1: "0 \<le> w'" using assms(1) b by simp
      have w2: "w' < width" using assms(2) b by simp
      have lt: "h' * width + w' < i'"
        unfolding hw(5) using o w0 w1 w2 by (rule row_major_less)
      have "h' * width + w' \<in> set ks" using memI b by simp
      then have "h' * width + w' \<in> set ys \<or> h' * width + w' = i' \<or> h' * width + w' \<in> set zs"
        unfolding d(1) by auto
      moreover have "h' * width + w' \<noteq> i'" using lt by simp
      moreover have "h' * width + w' \<notin> set zs"
      proof
        assume "h' * width + w' \<in> set zs"
        then have "i' < h' * width + w'" using zs by blast
        then show False using lt by simp
      qed
      ultimately have "h' * width + w' \<in> set ys" by blast
      then show ?thesis using d(3) by blast
    qed
    have "hstart \<le> h \<and> h < hend \<and> wstart \<le> w \<and> w < wend \<and> i' = h * width + w \<and>
            bs (h * width + w) = m' \<and>
            (\<forall>h' w'. hstart \<le> h' \<and> h' < hend \<and> wstart \<le> w' \<and> w' < wend \<and>
                (h' < h \<or> (h' = h \<and> w' < w)) \<longrightarrow> bs (h' * width + w') < m')"
      using hw d(2) before by simp
    then show ?thesis by (intro exI [of _ h] exI [of _ w])
  qed
qed

lemma HIP_loop_own_index2:
  assumes "\<And>i a b. body i (a, b) = (a(i := f i), b(i := g i))"
  shows "HIP_1D_KERNEL_LOOP n body (a, b) =
     (\<lambda>j. if 0 \<le> j \<and> j < n then f j else a j, \<lambda>j. if 0 \<le> j \<and> j < n then g j else b j)"
  unfolding HIP_1D_KERNEL_LOOP_def fold_own_index2 [of body f g, OF assms] set_upto_loop
  by (rule refl)

lemma MaxPoolForward_eq:
  "MaxPoolForward to_float of_float FLT_MAX nthreads bottom_data num channels height width pooled_height
      pooled_width kernel_h kernel_w stride_h stride_w pad_h pad_w (top_data, mask') =
   (\<lambda>j. if 0 \<le> j \<and> j < nthreads
        then of_float (fst (MaxPoolForward_thread to_float FLT_MAX bottom_data channels height
               width pooled_height pooled_width kernel_h kernel_w stride_h stride_w pad_h pad_w j))
        else top_data j,
    \<lambda>j. if 0 \<le> j \<and> j < nthreads
        then snd (MaxPoolForward_thread to_float FLT_MAX bottom_data channels height width pooled_height
               pooled_width kernel_h kernel_w stride_h stride_w pad_h pad_w j)
        else mask' j)"
  unfolding MaxPoolForward_def
  by (rule HIP_loop_own_index2) (simp add: Let_def split_def)

lemma MaxPoolForward_thread_at:
  assumes "0 \<le> n" "0 \<le> c" "c < channels" "0 \<le> ph" "ph < pooled_height" "0 \<le> pw" "pw < pooled_width"
    and "index = ((n * channels + c) * pooled_height + ph) * pooled_width + pw"
  shows "MaxPoolForward_thread to_float FLT_MAX bottom_data channels height width pooled_height pooled_width
           kernel_h kernel_w stride_h stride_w pad_h pad_w index =
         window_scan to_float (\<lambda>i. bottom_data ((n * channels + c) * height * width + i)) width
           (max (ph * stride_h - pad_h) 0) (min (ph * stride_h - pad_h + kernel_h) height)
           (max (pw * stride_w - pad_w) 0) (min (pw * stride_w - pad_w + kernel_w) width)
           (- FLT_MAX, - 1)"
  unfolding MaxPoolForward_thread_def Let_def index4 [OF assms]
  by (rule refl)

lemma MaxPoolForward_cell:
  assumes "0 \<le> n" "n < num" "0 \<le> c" "c < channels"
    and "0 \<le> ph" "ph < pooled_height" "0 \<le> pw" "pw < pooled_width"
    and "nthreads = num * channels * pooled_height * pooled_width"
    and "index = ((n * channels + c) * pooled_height + ph) * pooled_width + pw"
    and "(top_out, mask_out) =
           MaxPoolForward to_float of_float FLT_MAX nthreads bottom_data num channels height width
             pooled_height pooled_width kernel_h kernel_w stride_h stride_w pad_h pad_w
             (top_data, mask')"
  shows "\<exists>m. fold (scan_step (\<lambda>k. to_float (bottom_data ((n * channels + c) * height * width + k))))
              (window_cells width
                 (max (ph * stride_h - pad_h) 0) (min (ph * stride_h - pad_h + kernel_h) height)
                 (max (pw * stride_w - pad_w) 0) (min (pw * stride_w - pad_w + kernel_w) width))
              (- FLT_MAX, - 1) = (m, mask_out index)
            \<and> top_out index = of_float m"
proof -
  define r where "r = MaxPoolForward_thread to_float FLT_MAX bottom_data channels height width
      pooled_height pooled_width kernel_h kernel_w stride_h stride_w pad_h pad_w index"
  have i: "0 \<le> index" "index < nthreads"
    unfolding assms(9,10) by (rule index4_range [OF assms(1-8)])+
  have t: "r = fold (scan_step (\<lambda>k. to_float (bottom_data ((n * channels + c) * height * width + k))))
      (window_cells width
         (max (ph * stride_h - pad_h) 0) (min (ph * stride_h - pad_h + kernel_h) height)
         (max (pw * stride_w - pad_w) 0) (min (pw * stride_w - pad_w + kernel_w) width))
      (- FLT_MAX, - 1)"
    unfolding r_def MaxPoolForward_thread_at [OF assms(1,3-8,10)] window_scan_cells
    by (rule refl)
  have "top_out index = of_float (fst r)" "mask_out index = snd r"
    using arg_cong [OF assms(11), of fst] arg_cong [OF assms(11), of snd] i
    by (simp_all add: MaxPoolForward_eq r_def)
  then have "r = (fst r, mask_out index) \<and> top_out index = of_float (fst r)" by simp
  then show ?thesis unfolding t [symmetric] by (rule exI)
qed

text \<open>
  Claim C1, as the kernel implements it. The thread of the output cell \<open>(n, c, ph, pw)\<close>
  computes within the range of \<open>int\<close>, and the conversion to \<open>float\<close> and back is exact on
  the values of its clamped window \<open>[hstart, hend) \<times> [wstart, wend)\<close> (as it is for float,
  where the conversions are the identity, and for float16, whose values are floats).
  Values are compared as the kernel compares them, after conversion to \<open>float\<close>. If the
  window holds at least one value greater than \<open>- FLT_MAX\<close>, then the output value is the
  maximum of the input values over the window (it bounds them all and is one of them),
  and the mask is the flat index \<open>h * width + w\<close> of the first cell of the window, in
  row-major order, that holds the maximum (every cell of the window before it holds a
  smaller value).
\<close>

theorem MaxPoolForward_window_max:
  fixes bottom_data :: "'a ptr" and to_float :: "'a \<Rightarrow> 'f::{linorder,uminus}"
  assumes "0 \<le> n" "n < num" "0 \<le> c" "c < channels"
    and "0 \<le> ph" "ph < pooled_height" "0 \<le> pw" "pw < pooled_width"
    and "nthreads = num * channels * pooled_height * pooled_width"
    and "index = ((n * channels + c) * pooled_height + ph) * pooled_width + pw"
    and "hstart = max (ph * stride_h - pad_h) 0"
    and "hend = min (ph * stride_h - pad_h + kernel_h) height"
    and "wstart = max (pw * stride_w - pad_w) 0"
    and "wend = min (pw * stride_w - pad_w + kernel_w) width"
    and "bottom_slice = (\<lambda>i. bottom_data ((n * channels + c) * height * width + i))"
    and "(top_out, mask_out) =
           MaxPoolForward to_float of_float FLT_MAX nthreads bottom_data num channels height width
             pooled_height pooled_width kernel_h kernel_w stride_h stride_w pad_h pad_w
             (top_data, mask')"
    and "MaxPoolForward_in_int nthreads num channels height width pooled_height pooled_width
           kernel_h kernel_w stride_h stride_w pad_h pad_w index n c ph pw"
    and "\<forall>h w. hstart \<le> h \<and> h < hend \<and> wstart \<le> w \<and> w < wend \<longrightarrow>
           of_float (to_float (bottom_slice (h * width + w))) = bottom_slice (h * width + w)"
    and "\<exists>h w. hstart \<le> h \<and> h < hend \<and> wstart \<le> w \<and> w < wend \<and>
           - FLT_MAX < to_float (bottom_slice (h * width + w))"
  shows "(\<forall>h w. hstart \<le> h \<and> h < hend \<and> wstart \<le> w \<and> w < wend \<longrightarrow>
            to_float (bottom_slice (h * width + w)) \<le> to_float (top_out index))
       \<and> (\<exists>h w. hstart \<le> h \<and> h < hend \<and> wstart \<le> w \<and> w < wend \<and>
            mask_out index = h * width + w \<and> bottom_slice (h * width + w) = top_out index \<and>
            (\<forall>h' w'. hstart \<le> h' \<and> h' < hend \<and> wstart \<le> w' \<and> w' < wend \<and>
                (h' < h \<or> (h' = h \<and> w' < w)) \<longrightarrow>
                to_float (bottom_slice (h' * width + w')) < to_float (top_out index)))"
proof -
  define fs where "fs = (\<lambda>k. to_float (bottom_slice k))"
  have "\<exists>m. fold (scan_step fs) (window_cells width hstart hend wstart wend) (- FLT_MAX, - 1) =
          (m, mask_out index) \<and> top_out index = of_float m"
    unfolding fs_def assms(11-15) by (rule MaxPoolForward_cell [OF assms(1-10,16)])
  then obtain m where
    ws: "fold (scan_step fs) (window_cells width hstart hend wstart wend) (- FLT_MAX, - 1) =
          (m, mask_out index)"
    and top: "top_out index = of_float m"
    by blast
  have w0: "0 \<le> wstart" "wend \<le> width" unfolding assms(13,14) by simp_all
  note res = window_scan_result [OF w0 ws]
  have above: "\<exists>h w. hstart \<le> h \<and> h < hend \<and> wstart \<le> w \<and> w < wend \<and>
      - FLT_MAX < fs (h * width + w)"
    using assms(19) unfolding fs_def .
  obtain h w where hw: "hstart \<le> h" "h < hend" "wstart \<le> w" "w < wend"
      "mask_out index = h * width + w" "fs (h * width + w) = m"
      "\<forall>h' w'. hstart \<le> h' \<and> h' < hend \<and> wstart \<le> w' \<and> w' < wend \<and>
          (h' < h \<or> (h' = h \<and> w' < w)) \<longrightarrow> fs (h' * width + w') < m"
    using res(3) [OF above] by blast
  have "of_float (to_float (bottom_slice (h * width + w))) = bottom_slice (h * width + w)"
    using assms(18) hw(1-4) by blast
  then have eq: "bottom_slice (h * width + w) = top_out index"
    unfolding top hw(6) [symmetric] fs_def by simp
  have m: "to_float (top_out index) = m"
    unfolding eq [symmetric] using hw(6) unfolding fs_def .
  have 1: "\<forall>h w. hstart \<le> h \<and> h < hend \<and> wstart \<le> w \<and> w < wend \<longrightarrow>
      to_float (bottom_slice (h * width + w)) \<le> to_float (top_out index)"
    using res(1) unfolding m fs_def .
  have 2: "\<forall>h' w'. hstart \<le> h' \<and> h' < hend \<and> wstart \<le> w' \<and> w' < wend \<and>
      (h' < h \<or> (h' = h \<and> w' < w)) \<longrightarrow>
      to_float (bottom_slice (h' * width + w')) < to_float (top_out index)"
    using hw(7) unfolding m fs_def .
  have "\<exists>h w. hstart \<le> h \<and> h < hend \<and> wstart \<le> w \<and> w < wend \<and>
      mask_out index = h * width + w \<and> bottom_slice (h * width + w) = top_out index \<and>
      (\<forall>h' w'. hstart \<le> h' \<and> h' < hend \<and> wstart \<le> w' \<and> w' < wend \<and>
          (h' < h \<or> (h' = h \<and> w' < w)) \<longrightarrow>
          to_float (bottom_slice (h' * width + w')) < to_float (top_out index))"
    using hw(1-5) eq 2 by (intro exI [of _ h] exI [of _ w]) simp
  then show ?thesis using 1 by (rule conjI [rotated])
qed

theorem MaxPoolForward_window_max_witness:
  "data [1, 5, 2, 0, 3, 5, 1, 1, 0, 0, 0, 0, 0, 0, 0, 0] (0 * 4 + 0)
      \<le> fst (MaxPoolForward (\<lambda>x. x) (\<lambda>x. x) FLT_MAX_value 4
             (data [1, 5, 2, 0, 3, 5, 1, 1, 0, 0, 0, 0, 0, 0, 0, 0])
             1 1 4 4 2 2 2 2 2 2 0 0 (data [], data [])) 0
 \<and> data [1, 5, 2, 0, 3, 5, 1, 1, 0, 0, 0, 0, 0, 0, 0, 0] (1 * 4 + 1)
      \<le> fst (MaxPoolForward (\<lambda>x. x) (\<lambda>x. x) FLT_MAX_value 4
             (data [1, 5, 2, 0, 3, 5, 1, 1, 0, 0, 0, 0, 0, 0, 0, 0])
             1 1 4 4 2 2 2 2 2 2 0 0 (data [], data [])) 0
 \<and> (\<exists>h w. 0 \<le> h \<and> h < 2 \<and> 0 \<le> w \<and> w < 2 \<and>
      snd (MaxPoolForward (\<lambda>x. x) (\<lambda>x. x) FLT_MAX_value 4
             (data [1, 5, 2, 0, 3, 5, 1, 1, 0, 0, 0, 0, 0, 0, 0, 0])
             1 1 4 4 2 2 2 2 2 2 0 0 (data [], data [])) 0 = h * 4 + w \<and>
      data [1, 5, 2, 0, 3, 5, 1, 1, 0, 0, 0, 0, 0, 0, 0, 0] (h * 4 + w) =
        fst (MaxPoolForward (\<lambda>x. x) (\<lambda>x. x) FLT_MAX_value 4
             (data [1, 5, 2, 0, 3, 5, 1, 1, 0, 0, 0, 0, 0, 0, 0, 0])
             1 1 4 4 2 2 2 2 2 2 0 0 (data [], data [])) 0 \<and>
      (\<forall>h' w'. 0 \<le> h' \<and> h' < 2 \<and> 0 \<le> w' \<and> w' < 2 \<and> (h' < h \<or> (h' = h \<and> w' < w)) \<longrightarrow>
         data [1, 5, 2, 0, 3, 5, 1, 1, 0, 0, 0, 0, 0, 0, 0, 0] (h' * 4 + w')
         < fst (MaxPoolForward (\<lambda>x. x) (\<lambda>x. x) FLT_MAX_value 4
             (data [1, 5, 2, 0, 3, 5, 1, 1, 0, 0, 0, 0, 0, 0, 0, 0])
             1 1 4 4 2 2 2 2 2 2 0 0 (data [], data [])) 0))"
proof -
  let ?X = "data [1, 5, 2, 0, 3, 5, 1, 1, 0, 0, 0, 0, 0, 0, 0, 0 :: real]"
  let ?R = "MaxPoolForward (\<lambda>x. x) (\<lambda>x. x) FLT_MAX_value 4 ?X 1 1 4 4 2 2 2 2 2 2 0 0
      (data [], data [])"
  have h1: "(0::int) \<le> 0" and h2: "(0::int) < 1" and h6: "(0::int) < 2" by simp_all
  have h9: "(4::int) = 1 * 1 * 2 * 2" by simp
  have h10: "(0::int) = ((0 * 1 + 0) * 2 + 0) * 2 + 0" by simp
  have h11: "(0::int) = max (0 * 2 - 0) 0" by simp
  have h12: "(2::int) = min (0 * 2 - 0 + 2) 4" by simp
  have h15: "(\<lambda>i. ?X ((0 * 1 + 0) * 4 * 4 + i)) = (\<lambda>i. ?X ((0 * 1 + 0) * 4 * 4 + i))" by (rule refl)
  have h16: "(fst ?R, snd ?R) = ?R" by (rule prod.collapse)
  have h17: "MaxPoolForward_in_int 4 1 1 4 4 2 2 2 2 2 2 0 0 0 0 0 0 0"
    by (simp add: MaxPoolForward_in_int_def in_int_def INT_MAX_def)
  have h18: "\<forall>h w. (0::int) \<le> h \<and> h < 2 \<and> (0::int) \<le> w \<and> w < 2 \<longrightarrow>
      (\<lambda>x. x) ((\<lambda>x. x) ((\<lambda>i. ?X ((0 * 1 + 0) * 4 * 4 + i)) (h * 4 + w))) =
      (\<lambda>i. ?X ((0 * 1 + 0) * 4 * 4 + i)) (h * 4 + w)"
    by simp
  have "- FLT_MAX_value < ?X ((0 * 1 + 0) * 4 * 4 + (0 * 4 + 0))"
    by (simp add: data_def FLT_MAX_value_def)
  then have h19: "\<exists>h w. (0::int) \<le> h \<and> h < 2 \<and> (0::int) \<le> w \<and> w < 2 \<and>
      - FLT_MAX_value < (\<lambda>x. x) ((\<lambda>i. ?X ((0 * 1 + 0) * 4 * 4 + i)) (h * 4 + w))"
    by (intro exI [of _ 0]) simp
  note t = MaxPoolForward_window_max [OF h1 h2 h1 h2 h1 h6 h1 h6 h9 h10 h11 h12 h11 h12 h15 h16
      h17 h18 h19]
  have a: "\<forall>h w. 0 \<le> h \<and> h < 2 \<and> 0 \<le> w \<and> w < 2 \<longrightarrow> ?X (h * 4 + w) \<le> fst ?R 0"
    and b: "\<exists>h w. 0 \<le> h \<and> h < 2 \<and> 0 \<le> w \<and> w < 2 \<and> snd ?R 0 = h * 4 + w \<and>
      ?X (h * 4 + w) = fst ?R 0 \<and>
      (\<forall>h' w'. 0 \<le> h' \<and> h' < 2 \<and> 0 \<le> w' \<and> w' < 2 \<and> (h' < h \<or> (h' = h \<and> w' < w)) \<longrightarrow>
         ?X (h' * 4 + w') < fst ?R 0)"
    using t by simp_all
  have "?X (0 * 4 + 0) \<le> fst ?R 0" by (rule a [rule_format]) simp
  moreover have "?X (1 * 4 + 1) \<le> fst ?R 0" by (rule a [rule_format]) simp
  ultimately show ?thesis using b by (intro conjI)
qed

text \<open>
  The claim as stated fails for a window whose values do not exceed \<open>- FLT_MAX\<close>: on the
  \<open>1 \<times> 1 \<times> 1 \<times> 1\<close> float input \<open>[- FLT_MAX]\<close> with a \<open>1 \<times> 1\<close> kernel the output is the
  maximum, but the mask is \<open>- 1\<close>, not the flat index 0 of the only cell of the window.
\<close>

theorem MaxPoolForward_lowest_input_counterexample:
  "fst (MaxPoolForward (\<lambda>x. x) (\<lambda>x. x) FLT_MAX_value 1 (data [- FLT_MAX_value])
          1 1 1 1 1 1 1 1 1 1 0 0 (data [], data [])) 0 = data [- FLT_MAX_value] (0 * 1 + 0)
 \<and> snd (MaxPoolForward (\<lambda>x. x) (\<lambda>x. x) FLT_MAX_value 1 (data [- FLT_MAX_value])
          1 1 1 1 1 1 1 1 1 1 0 0 (data [], data [])) 0 = - 1
 \<and> (- 1 :: int) \<noteq> 0 * 1 + 0"
  by (simp add: MaxPoolForward_eq MaxPoolForward_thread_def window_scan_def Let_def data_def)

section \<open>Max pooling: the empty window and its sentinel\<close>

lemma smod_nonneg:
  assumes "0 \<le> a"
  shows "0 \<le> (a::int) smod b"
proof -
  have "0 \<le> \<bar>a\<bar> mod \<bar>b\<bar>" by (cases "b = 0") simp_all
  moreover have "0 \<le> sgn a" using assms by (simp add: sgn_if)
  ultimately show ?thesis unfolding signed_modulo_int_def by (rule mult_nonneg_nonneg [rotated])
qed

lemma sdiv_nonneg: "0 \<le> a \<Longrightarrow> 0 \<le> b \<Longrightarrow> 0 \<le> (a::int) sdiv b"
  by (simp add: sdiv_nonneg_eq pos_imp_zdiv_nonneg_iff div_int_pos_iff)

lemma backward_key_nonneg:
  assumes "0 \<le> index" "0 \<le> width"
  shows "0 \<le> (index sdiv width) smod height * width + index smod (width::int)"
proof -
  have "0 \<le> index sdiv width" using assms by (rule sdiv_nonneg)
  then have "0 \<le> (index sdiv width) smod height" by (rule smod_nonneg)
  then have "0 \<le> (index sdiv width) smod height * width" using assms(2) by simp
  moreover have "0 \<le> index smod width" using assms(1) by (rule smod_nonneg)
  ultimately show ?thesis by simp
qed

lemma MaxPoolBackward_eq:
  "MaxPoolBackward nthreads top_diff mask' num channels height width pooled_height
      pooled_width kernel_h kernel_w stride_h stride_w pad_h pad_w bottom_diff =
   (\<lambda>j. if 0 \<le> j \<and> j < nthreads
        then MaxPoolBackward_thread top_diff mask' channels height width pooled_height
               pooled_width kernel_h kernel_w stride_h stride_w pad_h pad_w j
        else bottom_diff j)"
  unfolding MaxPoolBackward_def
  by (rule HIP_loop_own_index) simp

lemma sentinel_step:
  assumes "mask' p = - 1" "0 \<le> key"
  shows "(if mask' x = key then g + (top_diff(p := v)) x else g) =
         (if mask' x = (key::int) then g + top_diff x else g)"
  using assms by auto

lemma MaxPoolBackward_thread_sentinel:
  assumes "mask' p = - 1" "0 \<le> width" "0 \<le> index"
  shows "MaxPoolBackward_thread (top_diff(p := v)) mask' channels height width pooled_height
           pooled_width kernel_h kernel_w stride_h stride_w pad_h pad_w index =
         MaxPoolBackward_thread top_diff mask' channels height width pooled_height
           pooled_width kernel_h kernel_w stride_h stride_w pad_h pad_w index"
  unfolding MaxPoolBackward_thread_def Let_def
    sentinel_step [where mask' = mask' and p = p, OF assms(1) backward_key_nonneg [OF assms(3,2)]]
  by (rule refl)

lemma MaxPoolBackward_sentinel:
  assumes "mask' p = - 1" "0 \<le> width"
  shows "MaxPoolBackward nthreads (top_diff(p := v)) mask' num channels height width pooled_height
           pooled_width kernel_h kernel_w stride_h stride_w pad_h pad_w bottom_diff =
         MaxPoolBackward nthreads top_diff mask' num channels height width pooled_height
           pooled_width kernel_h kernel_w stride_h stride_w pad_h pad_w bottom_diff"
  unfolding MaxPoolBackward_eq
  by (rule ext)
    (simp add: MaxPoolBackward_thread_sentinel [where mask' = mask' and p = p, OF assms])

text \<open>
  Claim C10, as the kernels implement it. For an output cell whose clamped window is
  empty (\<open>hend \<le> hstart\<close> or \<open>wend \<le> wstart\<close>) and whose thread computes within the
  range of \<open>int\<close>, the forward kernel stores the conversion of \<open>- FLT_MAX\<close> to the element
  type, which is \<open>- FLT_MAX\<close> in a float tensor, and the mask \<open>- 1\<close>. No input cell has the
  flat index \<open>- 1\<close>, so the backward kernel run with this mask never reads the upstream
  gradient of that output cell: whatever value \<open>v\<close> it holds, the input gradient is the
  same.
\<close>

theorem MaxPoolForward_empty_window:
  fixes bottom_data :: "'a ptr" and to_float :: "'a \<Rightarrow> 'f::{linorder,uminus}"
    and top_diff :: "('b::{plus,zero}) ptr"
  assumes "0 \<le> n" "n < num" "0 \<le> c" "c < channels"
    and "0 \<le> ph" "ph < pooled_height" "0 \<le> pw" "pw < pooled_width"
    and "nthreads = num * channels * pooled_height * pooled_width"
    and "index = ((n * channels + c) * pooled_height + ph) * pooled_width + pw"
    and "hstart = max (ph * stride_h - pad_h) 0"
    and "hend = min (ph * stride_h - pad_h + kernel_h) height"
    and "wstart = max (pw * stride_w - pad_w) 0"
    and "wend = min (pw * stride_w - pad_w + kernel_w) width"
    and "(top_out, mask_out) =
           MaxPoolForward to_float of_float FLT_MAX nthreads bottom_data num channels height width
             pooled_height pooled_width kernel_h kernel_w stride_h stride_w pad_h pad_w
             (top_data, mask')"
    and "hend \<le> hstart \<or> wend \<le> wstart"
    and "0 \<le> width"
    and "MaxPoolForward_in_int nthreads num channels height width pooled_height pooled_width
           kernel_h kernel_w stride_h stride_w pad_h pad_w index n c ph pw"
  shows "top_out index = of_float (- FLT_MAX)
       \<and> mask_out index = - 1
       \<and> MaxPoolBackward nthreads' (top_diff(index := v)) mask_out num channels height width
           pooled_height pooled_width kernel_h kernel_w stride_h stride_w pad_h pad_w bottom_diff =
         MaxPoolBackward nthreads' top_diff mask_out num channels height width
           pooled_height pooled_width kernel_h kernel_w stride_h stride_w pad_h pad_w bottom_diff"
proof -
  define fs where "fs = (\<lambda>k. to_float (bottom_data ((n * channels + c) * height * width + k)))"
  have "\<exists>m. fold (scan_step fs) (window_cells width hstart hend wstart wend) (- FLT_MAX, - 1) =
          (m, mask_out index) \<and> top_out index = of_float m"
    unfolding fs_def assms(11-14) by (rule MaxPoolForward_cell [OF assms(1-10,15)])
  then obtain m where
    ws: "fold (scan_step fs) (window_cells width hstart hend wstart wend) (- FLT_MAX, - 1) =
          (m, mask_out index)"
    and top: "top_out index = of_float m"
    by blast
  have w0: "0 \<le> wstart" "wend \<le> width" unfolding assms(13,14) by simp_all
  have empty: "\<forall>h w. hstart \<le> h \<and> h < hend \<and> wstart \<le> w \<and> w < wend \<longrightarrow>
      fs (h * width + w) \<le> - FLT_MAX"
    using assms(16) by auto
  have v: "m = - FLT_MAX \<and> mask_out index = - 1"
    by (rule window_scan_result(2) [OF w0 ws empty])
  then have t: "top_out index = of_float (- FLT_MAX)" using top by simp
  have "mask_out index = - 1" using v by simp
  then have "MaxPoolBackward nthreads' (top_diff(index := v)) mask_out num channels height width
           pooled_height pooled_width kernel_h kernel_w stride_h stride_w pad_h pad_w bottom_diff =
         MaxPoolBackward nthreads' top_diff mask_out num channels height width
           pooled_height pooled_width kernel_h kernel_w stride_h stride_w pad_h pad_w bottom_diff"
    using assms(17) by (rule MaxPoolBackward_sentinel [where mask' = mask_out and p = index])
  then show ?thesis using v t by simp
qed

theorem MaxPoolForward_empty_window_witness:
  "fst (MaxPoolForward (\<lambda>x. x) (\<lambda>x. x) FLT_MAX_value 9 (data [7]) 1 1 1 1 3 3 1 1 1 1 1 1
          (data [], data [])) 0 = - FLT_MAX_value
 \<and> snd (MaxPoolForward (\<lambda>x. x) (\<lambda>x. x) FLT_MAX_value 9 (data [7]) 1 1 1 1 3 3 1 1 1 1 1 1
          (data [], data [])) 0 = - 1
 \<and> MaxPoolBackward 1 ((data [1, 1, 1, 1, 1, 1, 1, 1, 1 :: real])(0 := 5))
       (snd (MaxPoolForward (\<lambda>x. x) (\<lambda>x. x) FLT_MAX_value 9 (data [7]) 1 1 1 1 3 3 1 1 1 1 1 1
               (data [], data [])))
       1 1 1 1 3 3 1 1 1 1 1 1 (data []) =
     MaxPoolBackward 1 (data [1, 1, 1, 1, 1, 1, 1, 1, 1 :: real])
       (snd (MaxPoolForward (\<lambda>x. x) (\<lambda>x. x) FLT_MAX_value 9 (data [7]) 1 1 1 1 3 3 1 1 1 1 1 1
               (data [], data [])))
       1 1 1 1 3 3 1 1 1 1 1 1 (data [])"
proof -
  let ?R = "MaxPoolForward (\<lambda>x. x) (\<lambda>x. x) FLT_MAX_value 9 (data [7]) 1 1 1 1 3 3 1 1 1 1 1 1
      (data [], data [])"
  have h1: "(0::int) \<le> 0" and h2: "(0::int) < 1" and h6: "(0::int) < 3" by simp_all
  have h9: "(9::int) = 1 * 1 * 3 * 3" by simp
  have h10: "(0::int) = ((0 * 1 + 0) * 3 + 0) * 3 + 0" by simp
  have h11: "(0::int) = max (0 * 1 - 1) 0" by simp
  have h12: "(0::int) = min (0 * 1 - 1 + 1) 1" by simp
  have h15: "(fst ?R, snd ?R) = ?R" by (rule prod.collapse)
  have h16: "(0::int) \<le> 0 \<or> (0::int) \<le> 0" by simp
  have h17: "(0::int) \<le> 1" by simp
  have h18: "MaxPoolForward_in_int 9 1 1 1 1 3 3 1 1 1 1 1 1 0 0 0 0 0"
    by (simp add: MaxPoolForward_in_int_def in_int_def INT_MAX_def)
  note t = MaxPoolForward_empty_window [OF h1 h2 h1 h2 h1 h6 h1 h6 h9 h10 h11 h12 h11 h12 h15
      h16 h17 h18]
  have a: "fst ?R 0 = - FLT_MAX_value" by (rule conjunct1 [OF t])
  note b = conjunct2 [OF t]
  show ?thesis using a b by (rule conjI)
qed

text \<open>
  The stored value is not \<open>- FLT_MAX\<close> in a float16 tensor, which cannot hold that value.
  On the \<open>1 \<times> 1 \<times> 1 \<times> 1\<close> float16 input \<open>[7]\<close> with a \<open>1 \<times> 1\<close> kernel, stride 1 and a pad
  of 1 on every side, the window of the output cell \<open>(0, 0)\<close> lies in the padding: the
  kernel stores the conversion of \<open>- FLT_MAX\<close> to float16, negative infinity, and the
  mask \<open>- 1\<close>.
\<close>

theorem MaxPoolForward_empty_window_float16_counterexample:
  "To_float16_float
     (fst (MaxPoolForward To_float16_float To_float_float16 (Finite FLT_MAX_value) 9
             (data [Finite 7]) 1 1 1 1 3 3 1 1 1 1 1 1 (data [], data [])) 0) = NegInf
 \<and> NegInf \<noteq> - Finite FLT_MAX_value
 \<and> snd (MaxPoolForward To_float16_float To_float_float16 (Finite FLT_MAX_value) 9
           (data [Finite 7]) 1 1 1 1 3 3 1 1 1 1 1 1 (data [], data [])) 0 = - 1"
  by (simp add: MaxPoolForward_eq MaxPoolForward_thread_def window_scan_def Let_def
      To_float16_float_def To_float_float16_def uminus_ieee_def FLT_MAX_value_def)

section \<open>Max pooling backward: the gradient goes to the recorded argmax\<close>




























end
